theory Spec2Isabelle
  imports Complex_Main "HOL-Library.Sublist"
begin

section \<open>Values shared by the model\<close>

text \<open>
  The model follows \<^verbatim>\<open>src/research_agent.py\<close>.  A Python dict with string keys and
  string values is an association list; a missing key is a key without an entry.
  Everything the program does to the outside world (HTTP requests, calls of the
  DuckDuckGo client, sleeping, scraping, the local language model) is appended to a
  trace of events, and the answer of the outside world is read from an environment
  that is a parameter of every function.  The trace also records the entry of the
  three search methods, so that "is invoked" is a statement about the trace.
  Console output and the optional progress callback are calls into the outside world
  as well, and they may raise.  Logging is not modelled.
\<close>

type_synonym pydict = "(string \<times> string) list"

text \<open>\<^verbatim>\<open>d.get(k, default)\<close>\<close>

definition dict_get :: "pydict \<Rightarrow> string \<Rightarrow> string \<Rightarrow> string" where
  "dict_get d k dflt = (case map_of d k of None \<Rightarrow> dflt | Some v \<Rightarrow> v)"

text \<open>\<^verbatim>\<open>a or b\<close> on strings: the empty string is false.\<close>

definition str_or :: "string \<Rightarrow> string \<Rightarrow> string" where
  "str_or a b = (if a \<noteq> [] then a else b)"

text \<open>\<^verbatim>\<open>sub in s\<close> on strings.\<close>

fun str_in :: "string \<Rightarrow> string \<Rightarrow> bool" where
  "str_in sub [] = (sub = [])"
| "str_in sub (c # cs) = (take (length sub) (c # cs) = sub \<or> str_in sub cs)"

text \<open>\<^verbatim>\<open>s.lower()\<close>, on the ASCII letters.\<close>

definition chr_lower :: "char \<Rightarrow> char" where
  "chr_lower c =
     (case map_of (zip ''ABCDEFGHIJKLMNOPQRSTUVWXYZ'' ''abcdefghijklmnopqrstuvwxyz'') c of
        None \<Rightarrow> c
      | Some l \<Rightarrow> l)"

definition str_lower :: "string \<Rightarrow> string" where
  "str_lower s = map chr_lower s"

text \<open>
  \<^verbatim>\<open>xs[i:j]\<close> for integer bounds: a negative bound counts from the end, and both
  bounds are cut to the length of the list.
\<close>

definition py_slice :: "'a list \<Rightarrow> int \<Rightarrow> int \<Rightarrow> 'a list" where
  "py_slice xs i j =
     (let n = int (length xs);
          lo = (if i < 0 then max 0 (n + i) else min n i);
          hi = (if j < 0 then max 0 (n + j) else min n j)
      in take (nat (hi - lo)) (drop (nat lo) xs))"

text \<open>
  The exceptions the code tells apart: the DuckDuckGo client's own exception with its
  message, \<^verbatim>\<open>requests.exceptions.HTTPError\<close> with the status code of its response
  (\<^verbatim>\<open>None\<close> when the exception carries no response, as its constructor allows), and
  every other subclass of \<^verbatim>\<open>Exception\<close>, named by its message.
\<close>

datatype exn =
    DuckDuckGoSearchException string
  | HTTPError "nat option"
  | OtherException string

text \<open>What a call into the outside world does: it returns a value or raises.\<close>

datatype 'a reply = Returns 'a | Raises exn

fun raises :: "'a reply \<Rightarrow> bool" where
  "raises (Raises e) = True"
| "raises (Returns v) = False"

datatype event =
    Call_search string int
  | Call_search_google string int
  | Call_search_duckduckgo string int
  | Call_retry_backoff int
  | Random_uniform
  | Sleep real
  | Make_ddgs
  | Ddgs_text string int string
  | Ddgs_news string int
  | Requests_get string int int
  | Scrape_url string
  | Analyze_with_ai
  | Print string
  | Progress_cb string

type_synonym trace = "event list"

fun is_Random_uniform :: "event \<Rightarrow> bool" where
  "is_Random_uniform Random_uniform = True"
| "is_Random_uniform _ = False"

fun is_Ddgs_text :: "event \<Rightarrow> bool" where
  "is_Ddgs_text (Ddgs_text q n b) = True"
| "is_Ddgs_text _ = False"

fun is_Ddgs_news :: "event \<Rightarrow> bool" where
  "is_Ddgs_news (Ddgs_news q n) = True"
| "is_Ddgs_news _ = False"

fun is_Requests_get :: "event \<Rightarrow> bool" where
  "is_Requests_get (Requests_get q s n) = True"
| "is_Requests_get _ = False"

fun is_Scrape_url :: "event \<Rightarrow> bool" where
  "is_Scrape_url (Scrape_url u) = True"
| "is_Scrape_url _ = False"

fun is_Call_search_google :: "event \<Rightarrow> bool" where
  "is_Call_search_google (Call_search_google q n) = True"
| "is_Call_search_google _ = False"

fun is_Call_search_duckduckgo :: "event \<Rightarrow> bool" where
  "is_Call_search_duckduckgo (Call_search_duckduckgo q n) = True"
| "is_Call_search_duckduckgo _ = False"

fun is_Analyze_with_ai :: "event \<Rightarrow> bool" where
  "is_Analyze_with_ai Analyze_with_ai = True"
| "is_Analyze_with_ai _ = False"

fun is_Print :: "event \<Rightarrow> bool" where
  "is_Print (Print m) = True"
| "is_Print _ = False"

fun is_Progress_cb :: "event \<Rightarrow> bool" where
  "is_Progress_cb (Progress_cb m) = True"
| "is_Progress_cb _ = False"

fun is_Call_retry_backoff :: "event \<Rightarrow> bool" where
  "is_Call_retry_backoff (Call_retry_backoff a) = True"
| "is_Call_retry_backoff _ = False"

text \<open>How many events of one kind a trace holds.\<close>

definition count_ev :: "(event \<Rightarrow> bool) \<Rightarrow> trace \<Rightarrow> nat" where
  "count_ev p tr = length (filter p tr)"

text \<open>
  A scraped page as \<^verbatim>\<open>WebScraper.scrape_url\<close> returns it: the truth value of its
  \<^verbatim>\<open>'success'\<close> entry and the remaining entries.
\<close>

record scraped =
  success :: bool
  entries :: pydict

text \<open>
  The outside world.  Each answer may depend on the arguments of the call and on how
  many calls of the same kind came before it.
\<close>

record env =
  ddgs_text :: "nat \<Rightarrow> string \<Rightarrow> int \<Rightarrow> string \<Rightarrow> pydict list option reply"
  ddgs_news :: "nat \<Rightarrow> string \<Rightarrow> int \<Rightarrow> pydict list option reply"
  requests_get :: "nat \<Rightarrow> string \<Rightarrow> int \<Rightarrow> int \<Rightarrow> pydict list option reply"
  random_uniform :: "nat \<Rightarrow> real"
  scrape_url :: "nat \<Rightarrow> string \<Rightarrow> scraped reply"
  analyze_with_ai :: "nat \<Rightarrow> string"
  now_isoformat :: "nat \<Rightarrow> string"
  print_out :: "nat \<Rightarrow> string \<Rightarrow> unit reply"

text \<open>
  The progress callback that a caller may pass to \<^verbatim>\<open>research\<close>: its answer may depend
  on the message and on how many times it was called before.
\<close>

type_synonym callback = "nat \<Rightarrow> string \<Rightarrow> unit reply"

section \<open>SearchEngine\<close>

record SearchEngine =
  google_api_key :: "string option"
  google_cse_id :: "string option"
  preferred_engine :: string
  backend_idx :: nat
  ddgs :: nat

text \<open>\<^verbatim>\<open>self._backends_cycle\<close>, assigned once in \<^verbatim>\<open>__init__\<close>.\<close>

definition backends_cycle :: "string list" where
  "backends_cycle = [''api'', ''html'', ''lite'']"

text \<open>
  \<^verbatim>\<open>self.ddgs = self._make_ddgs()\<close>: a new client object replaces the old one; the
  field counts the clients built after the first.
\<close>

definition make_ddgs :: "SearchEngine \<times> trace \<Rightarrow> SearchEngine \<times> trace" where
  "make_ddgs st = (case st of (se, tr) \<Rightarrow> (se\<lparr>ddgs := Suc (ddgs se)\<rparr>, tr @ [Make_ddgs]))"

text \<open>
  The sleep time of \<^verbatim>\<open>_retry_backoff\<close> for a given jitter.  \<^verbatim>\<open>2 ** attempt\<close> is an
  integer for a non-negative attempt and the float \<^verbatim>\<open>1 / 2 ** -attempt\<close> otherwise;
  floats are read as real numbers.
\<close>

definition sleep_time :: "int \<Rightarrow> real \<Rightarrow> real" where
  "sleep_time attempt jitter =
     (let base = min 16 (if 0 \<le> attempt then 2 ^ nat attempt else 1 / 2 ^ nat (- attempt))
      in max 1 (base + jitter))"

definition retry_backoff :: "env \<Rightarrow> int \<Rightarrow> trace \<Rightarrow> trace" where
  "retry_backoff w attempt tr =
     (let tr1 = tr @ [Call_retry_backoff attempt];
          jitter = random_uniform w (count_ev is_Random_uniform tr1);
          tr2 = tr1 @ [Random_uniform]
      in tr2 @ [Sleep (sleep_time attempt jitter)])"


text \<open>
  The credentials come from the process environment and may be absent; an absent value
  and the empty string are both false in a condition.
\<close>

definition opt_str :: "string option \<Rightarrow> string" where
  "opt_str v = (case v of None \<Rightarrow> [] | Some s \<Rightarrow> s)"

definition truthy :: "string option \<Rightarrow> bool" where
  "truthy v = (opt_str v \<noteq> [])"

subsection \<open>Normalising one hit\<close>

definition google_record :: "pydict \<Rightarrow> pydict" where
  "google_record item =
     [(''title'', dict_get item ''title'' ''Untitled''),
      (''url'', dict_get item ''link'' []),
      (''snippet'', dict_get item ''snippet'' [])]"

definition text_record :: "pydict \<Rightarrow> pydict" where
  "text_record r =
     [(''title'', dict_get r ''title'' []),
      (''url'', str_or (dict_get r ''href'' []) (dict_get r ''url'' [])),
      (''snippet'', str_or (dict_get r ''body'' []) (dict_get r ''snippet'' []))]"

definition news_record :: "pydict \<Rightarrow> pydict" where
  "news_record r =
     [(''title'', dict_get r ''title'' []),
      (''url'', dict_get r ''url'' []),
      (''snippet'', str_or (dict_get r ''body'' []) (dict_get r ''snippet'' [])),
      (''date'', dict_get r ''date'' []),
      (''source'', dict_get r ''source'' [])]"

text \<open>\<^verbatim>\<open>x or []\<close> for a value that is a list or \<^verbatim>\<open>None\<close>.\<close>

definition or_empty :: "'a list option \<Rightarrow> 'a list" where
  "or_empty v = (case v of None \<Rightarrow> [] | Some xs \<Rightarrow> xs)"

subsection \<open>_search_google\<close>

text \<open>
  The body of the \<^verbatim>\<open>for i in range(num_requests)\<close> loop inside the \<^verbatim>\<open>try\<close>: the
  first numeric argument is the number of iterations left, the second is \<^verbatim>\<open>i\<close>.  The
  reply stands for \<^verbatim>\<open>requests.get\<close>, \<^verbatim>\<open>raise_for_status\<close> and \<^verbatim>\<open>response.json()\<close>
  together: it raises, or it returns the \<^verbatim>\<open>'items'\<close> entry of the answer if there is
  one.  An exception leaves the loop and the \<^verbatim>\<open>try\<close> block.
\<close>

fun google_requests ::
  "env \<Rightarrow> string \<Rightarrow> int \<Rightarrow> nat \<Rightarrow> nat \<Rightarrow> pydict list \<Rightarrow> trace \<Rightarrow> (exn + pydict list) \<times> trace" where
  "google_requests w query max_results 0 i results tr = (Inr results, tr)"
| "google_requests w query max_results (Suc left) i results tr =
     (let start_index = int i * 10 + 1;
          num = min 10 (max_results - int (length results));
          tr1 = tr @ [Requests_get query start_index num]
      in case requests_get w (count_ev is_Requests_get tr) query start_index num of
           Raises e \<Rightarrow> (Inl e, tr1)
         | Returns data \<Rightarrow>
             (let items = or_empty data
              in if items = [] then (Inr results, tr1)
                 else (let results1 = results @ map google_record items
                       in if int (length results1) \<ge> max_results then (Inr results1, tr1)
                          else google_requests w query max_results left (Suc i) results1 tr1)))"

text \<open>
  The clause \<^verbatim>\<open>except requests.exceptions.HTTPError as e\<close> reads
  \<^verbatim>\<open>e.response.status_code\<close> before it returns the empty list.  When the exception
  carries no response that read raises \<^verbatim>\<open>AttributeError\<close> inside the clause, which the
  later \<^verbatim>\<open>except Exception\<close> clause of the same \<^verbatim>\<open>try\<close> does not catch.
\<close>

fun search_google ::
  "env \<Rightarrow> string \<Rightarrow> int \<Rightarrow> SearchEngine \<times> trace \<Rightarrow> (exn + pydict list) \<times> SearchEngine \<times> trace" where
  "search_google w query max_results (se, tr0) =
     (let tr = tr0 @ [Call_search_google query max_results]
      in if \<not> truthy (google_api_key se) \<or> \<not> truthy (google_cse_id se) then (Inr [], se, tr)
         else if str_in ''your_custom_search_engine_id'' (str_lower (opt_str (google_cse_id se)))
         then (Inr [], se, tr)
         else (let num_requests = min ((max_results + 9) div 10) 3
               in case google_requests w query max_results (nat num_requests) 0 [] tr of
                    (Inr results, tr1) \<Rightarrow> (Inr (py_slice results 0 max_results), se, tr1)
                  | (Inl (HTTPError (Some status_code)), tr1) \<Rightarrow> (Inr [], se, tr1)
                  | (Inl (HTTPError None), tr1) \<Rightarrow> (Inl (OtherException ''AttributeError''), se, tr1)
                  | (Inl e, tr1) \<Rightarrow> (Inr [], se, tr1)))"

subsection \<open>_search_duckduckgo\<close>

text \<open>\<^verbatim>\<open>"Ratelimit" in str(e) or "429" in str(e)\<close>\<close>

definition is_ratelimit :: "string \<Rightarrow> bool" where
  "is_ratelimit msg = (str_in ''Ratelimit'' msg \<or> str_in ''429'' msg)"

text \<open>
  \<^verbatim>\<open>self._backend_idx = (self._backend_idx + 1) % len(self._backends_cycle)\<close>
\<close>

definition advance_backend :: "SearchEngine \<times> trace \<Rightarrow> SearchEngine \<times> trace" where
  "advance_backend st =
     (case st of (se, tr) \<Rightarrow>
        (se\<lparr>backend_idx := (backend_idx se + 1) mod length backends_cycle\<rparr>, tr))"

text \<open>
  \<^verbatim>\<open>backend = self._backends_cycle[self._backend_idx % len(self._backends_cycle)]\<close>
\<close>

definition current_backend :: "SearchEngine \<Rightarrow> string" where
  "current_backend se = backends_cycle ! (backend_idx se mod length backends_cycle)"

text \<open>
  The three statements that end both \<^verbatim>\<open>except\<close> clauses: build a new client and, when
  an attempt is left, sleep one second and go on.
\<close>

definition recreate_and_sleep :: "int \<Rightarrow> SearchEngine \<times> trace \<Rightarrow> SearchEngine \<times> trace" where
  "recreate_and_sleep attempt st =
     (case make_ddgs st of (se, tr) \<Rightarrow> if attempt < 4 then (se, tr @ [Sleep 1]) else (se, tr))"

text \<open>
  The \<^verbatim>\<open>except\<close> clauses of one attempt.  In every case the loop goes on with the next
  attempt, through \<^verbatim>\<open>continue\<close> or by reaching the end of the loop body.
\<close>

definition ddg_except :: "env \<Rightarrow> int \<Rightarrow> exn \<Rightarrow> SearchEngine \<times> trace \<Rightarrow> SearchEngine \<times> trace" where
  "ddg_except w attempt e st =
     (case e of
        DuckDuckGoSearchException msg \<Rightarrow>
          (if is_ratelimit msg then
             (case make_ddgs (advance_backend st) of (se1, tr1) \<Rightarrow>
                if attempt < 4 then (se1, retry_backoff w attempt tr1)
                else recreate_and_sleep attempt (se1, tr1))
           else recreate_and_sleep attempt st)
      | _ \<Rightarrow> recreate_and_sleep attempt st)"

text \<open>
  \<^verbatim>\<open>for attempt in range(5)\<close>: the first numeric argument is the number of attempts
  left, the second is \<^verbatim>\<open>attempt\<close>.  The result is \<^verbatim>\<open>Some\<close> of the returned list when
  an attempt returns, and \<^verbatim>\<open>None\<close> when the loop ends without returning.
\<close>

fun ddg_attempts ::
  "env \<Rightarrow> string \<Rightarrow> int \<Rightarrow> nat \<Rightarrow> int \<Rightarrow> SearchEngine \<times> trace
     \<Rightarrow> pydict list option \<times> SearchEngine \<times> trace" where
  "ddg_attempts w query max_results 0 attempt st = (None, st)"
| "ddg_attempts w query max_results (Suc left) attempt (se, tr) =
     (let backend = current_backend se;
          tr1 = tr @ [Ddgs_text query max_results backend]
      in case ddgs_text w (count_ev is_Ddgs_text tr) query max_results backend of
           Returns results_raw \<Rightarrow> (Some (map text_record (or_empty results_raw)), se, tr1)
         | Raises e \<Rightarrow>
             ddg_attempts w query max_results left (attempt + 1) (ddg_except w attempt e (se, tr1)))"

fun search_duckduckgo ::
  "env \<Rightarrow> string \<Rightarrow> int \<Rightarrow> SearchEngine \<times> trace \<Rightarrow> (exn + pydict list) \<times> SearchEngine \<times> trace" where
  "search_duckduckgo w query max_results (se, tr0) =
     (let tr = tr0 @ [Call_search_duckduckgo query max_results];
          max_results = max 1 (min max_results 20)
      in case ddg_attempts w query max_results 5 0 (se, tr) of
           (Some results, st) \<Rightarrow> (Inr results, st)
         | (None, st) \<Rightarrow> (Inr [], st))"

subsection \<open>search\<close>

text \<open>
  An exception of a called method would pass through \<^verbatim>\<open>search\<close>, which has no
  \<^verbatim>\<open>try\<close> of its own.
\<close>

definition google_then_duckduckgo ::
  "env \<Rightarrow> string \<Rightarrow> int \<Rightarrow> SearchEngine \<times> trace \<Rightarrow> (exn + pydict list) \<times> SearchEngine \<times> trace" where
  "google_then_duckduckgo w query max_results st =
     (case search_google w query max_results st of
        (Inl e, st1) \<Rightarrow> (Inl e, st1)
      | (Inr google_results, st1) \<Rightarrow>
          if google_results \<noteq> [] then (Inr google_results, st1)
          else search_duckduckgo w query max_results st1)"

fun search ::
  "env \<Rightarrow> string \<Rightarrow> int \<Rightarrow> SearchEngine \<times> trace \<Rightarrow> (exn + pydict list) \<times> SearchEngine \<times> trace" where
  "search w query max_results (se, tr0) =
     (let st = (se, tr0 @ [Call_search query max_results])
      in if preferred_engine se = ''duckduckgo'' then search_duckduckgo w query max_results st
         else if preferred_engine se = ''google'' then
           (if truthy (google_api_key se) \<and> truthy (google_cse_id se)
            then google_then_duckduckgo w query max_results st
            else search_duckduckgo w query max_results st)
         else if truthy (google_api_key se) \<and> truthy (google_cse_id se)
         then google_then_duckduckgo w query max_results st
         else search_duckduckgo w query max_results st)"

subsection \<open>news_search\<close>

definition recreate_and_backoff ::
  "env \<Rightarrow> int \<Rightarrow> SearchEngine \<times> trace \<Rightarrow> SearchEngine \<times> trace" where
  "recreate_and_backoff w attempt st =
     (case make_ddgs st of (se, tr) \<Rightarrow>
        if attempt < 4 then (se, retry_backoff w attempt tr) else (se, tr))"

definition news_except :: "env \<Rightarrow> int \<Rightarrow> exn \<Rightarrow> SearchEngine \<times> trace \<Rightarrow> SearchEngine \<times> trace" where
  "news_except w attempt e st =
     (case e of
        DuckDuckGoSearchException msg \<Rightarrow>
          (if is_ratelimit msg then
             (case make_ddgs st of (se1, tr1) \<Rightarrow>
                if attempt < 4 then (se1, retry_backoff w attempt tr1)
                else recreate_and_backoff w attempt (se1, tr1))
           else recreate_and_backoff w attempt st)
      | _ \<Rightarrow> recreate_and_backoff w attempt st)"

fun news_attempts ::
  "env \<Rightarrow> string \<Rightarrow> int \<Rightarrow> nat \<Rightarrow> int \<Rightarrow> SearchEngine \<times> trace
     \<Rightarrow> pydict list option \<times> SearchEngine \<times> trace" where
  "news_attempts w query max_results 0 attempt st = (None, st)"
| "news_attempts w query max_results (Suc left) attempt (se, tr) =
     (let tr1 = tr @ [Ddgs_news query max_results]
      in case ddgs_news w (count_ev is_Ddgs_news tr) query max_results of
           Returns results_raw \<Rightarrow> (Some (map news_record (or_empty results_raw)), se, tr1)
         | Raises e \<Rightarrow>
             news_attempts w query max_results left (attempt + 1) (news_except w attempt e (se, tr1)))"

fun news_search ::
  "env \<Rightarrow> string \<Rightarrow> int \<Rightarrow> SearchEngine \<times> trace \<Rightarrow> (exn + pydict list) \<times> SearchEngine \<times> trace" where
  "news_search w query max_results (se, tr) =
     (let max_results = max 1 (min max_results 20)
      in case news_attempts w query max_results 5 0 (se, tr) of
           (Some results, st) \<Rightarrow> (Inr results, st)
         | (None, st) \<Rightarrow>
             (case search w (query @ '' news'') max_results st of
                (Inr generic, st1) \<Rightarrow> (Inr generic, st1)
              | (Inl e, st1) \<Rightarrow> (Inr [], st1)))"

subsection \<open>The replies a call has met\<close>

text \<open>
  The replies to the \<^verbatim>\<open>ddgs.text\<close> calls recorded in a piece of trace, in order, the
  first of them being call number \<open>k\<close>.
\<close>

fun replies_from :: "env \<Rightarrow> nat \<Rightarrow> trace \<Rightarrow> pydict list option reply list" where
  "replies_from w k [] = []"
| "replies_from w k (Ddgs_text q n b # evs) = ddgs_text w k q n b # replies_from w (Suc k) evs"
| "replies_from w k (e # evs) = replies_from w k evs"

text \<open>A reply that the fallback client takes for a rate-limit failure.\<close>

fun ratelimit_exn :: "exn \<Rightarrow> bool" where
  "ratelimit_exn (DuckDuckGoSearchException msg) = is_ratelimit msg"
| "ratelimit_exn _ = False"

fun ratelimit_reply :: "'a reply \<Rightarrow> bool" where
  "ratelimit_reply (Raises e) = ratelimit_exn e"
| "ratelimit_reply (Returns v) = False"

section \<open>Pagination in AIResearchAgent.research\<close>

text \<open>\<^verbatim>\<open>per_page = per_page or max_sources or 5\<close>\<close>

definition resolve_per_page :: "int option \<Rightarrow> int \<Rightarrow> int" where
  "resolve_per_page per_page max_sources =
     (case per_page of
        Some p \<Rightarrow> if p \<noteq> 0 then p else if max_sources \<noteq> 0 then max_sources else 5
      | None \<Rightarrow> if max_sources \<noteq> 0 then max_sources else 5)"

text \<open>\<^verbatim>\<open>fetch_n = max(per_page * (page + 2), per_page * 3)\<close>\<close>

definition fetch_n :: "int \<Rightarrow> int \<Rightarrow> int" where
  "fetch_n page per_page = max (per_page * (page + 2)) (per_page * 3)"

text \<open>
  \<^verbatim>\<open>page_results = all_results[start:start + per_page] if all_results else []\<close> and
  \<^verbatim>\<open>has_more = bool(all_results and len(all_results) > (start + per_page))\<close>, with
  \<^verbatim>\<open>page = max(0, int(page))\<close> and \<^verbatim>\<open>start = page * per_page\<close> before them.
\<close>

definition page_results :: "'a list \<Rightarrow> int \<Rightarrow> int \<Rightarrow> 'a list" where
  "page_results all_results page per_page =
     (let page = max 0 page; start = page * per_page
      in if all_results \<noteq> [] then py_slice all_results start (start + per_page) else [])"

definition has_more :: "'a list \<Rightarrow> int \<Rightarrow> int \<Rightarrow> bool" where
  "has_more all_results page per_page =
     (let page = max 0 page; start = page * per_page
      in all_results \<noteq> [] \<and> int (length all_results) > start + per_page)"

section \<open>AIResearchAgent\<close>

text \<open>The dict that \<^verbatim>\<open>research\<close> builds; absent keys are \<^verbatim>\<open>None\<close>.\<close>

record research_data =
  rd_query :: string
  rd_timestamp :: string
  rd_search_results :: "pydict list"
  rd_sources :: "scraped list"
  rd_page :: int
  rd_per_page :: int
  rd_has_more :: bool
  rd_error :: "string option"
  rd_analysis :: "string option"

record AIResearchAgent =
  search_engine :: SearchEngine
  use_ai :: bool
  ai_backend :: string
  research_history :: "research_data list"

text \<open>\<^verbatim>\<open>str(n)\<close> for a natural number.\<close>

fun str_nat :: "nat \<Rightarrow> string" where
  "str_nat n =
     (if n < 10 then [''0123456789'' ! n]
      else str_nat (n div 10) @ [''0123456789'' ! (n mod 10)])"

declare str_nat.simps [simp del]

text \<open>
  The pictographs at the head of the printed lines, as the bytes that the string
  literals of the source file hold.
\<close>

definition icon_researching :: string where
  "icon_researching = [CHR 0xC3, CHR 0xB0, CHR 0xC5, CHR 0xB8, CHR 0xE2, CHR 0x80, CHR 0x9D]"

definition icon_searching :: string where
  "icon_searching =
     [CHR 0xC3, CHR 0xB0, CHR 0xC5, CHR 0xB8, CHR 0xE2, CHR 0x80, CHR 0x9C, CHR 0xC2, CHR 0xA1]"

definition icon_scraping :: string where
  "icon_scraping =
     [CHR 0xC3, CHR 0xB0, CHR 0xC5, CHR 0xB8, CHR 0xE2, CHR 0x80, CHR 0x9C,
      CHR 0xE2, CHR 0x80, CHR 0x9E]"

definition icon_analyzing :: string where
  "icon_analyzing =
     [CHR 0xC3, CHR 0xB0, CHR 0xC5, CHR 0xB8, CHR 0xC2, CHR 0xA4, CHR 0xE2, CHR 0x80, CHR 0x93]"

text \<open>
  \<^verbatim>\<open>print(line)\<close> followed by \<^verbatim>\<open>if progress_cb: progress_cb(message)\<close>.  Both
  stand outside every \<^verbatim>\<open>try\<close> of \<^verbatim>\<open>research\<close>: the result is the exception that
  leaves \<^verbatim>\<open>research\<close>, if one is raised.
\<close>

definition announce ::
  "env \<Rightarrow> callback option \<Rightarrow> string \<Rightarrow> string \<Rightarrow> trace \<Rightarrow> exn option \<times> trace" where
  "announce w progress_cb line message tr =
     (case print_out w (count_ev is_Print tr) line of
        Raises e \<Rightarrow> (Some e, tr @ [Print line])
      | Returns u \<Rightarrow>
          (let tr1 = tr @ [Print line]
           in case progress_cb of
                None \<Rightarrow> (None, tr1)
              | Some cb \<Rightarrow>
                  (case cb (count_ev is_Progress_cb tr1) message of
                     Raises e \<Rightarrow> (Some e, tr1 @ [Progress_cb message])
                   | Returns u \<Rightarrow> (None, tr1 @ [Progress_cb message]))))"

text \<open>
  \<^verbatim>\<open>for i, result in enumerate(page_results, 1)\<close>, the second numeric argument being
  \<^verbatim>\<open>i\<close> and the first \<^verbatim>\<open>len(page_results)\<close>: an exception of the scraper is caught
  and the loop goes on with the next result; an exception of the announcement leaves
  the loop and \<^verbatim>\<open>research\<close>.
\<close>

fun scrape_sources ::
  "env \<Rightarrow> callback option \<Rightarrow> nat \<Rightarrow> nat \<Rightarrow> pydict list \<Rightarrow> scraped list \<times> trace
     \<Rightarrow> exn option \<times> scraped list \<times> trace" where
  "scrape_sources w progress_cb n_results i [] (sources, tr) = (None, sources, tr)"
| "scrape_sources w progress_cb n_results i (result # rest) (sources, tr) =
     (let url = dict_get result ''url'' [];
          prog = ''Scraping ['' @ str_nat i @ ''/'' @ str_nat n_results @ ''] '' @ url
      in case announce w progress_cb
                (''  ['' @ str_nat i @ ''/'' @ str_nat n_results @ ''] '' @ url) prog tr of
           (Some e, tr1) \<Rightarrow> (Some e, sources, tr1)
         | (None, tr1) \<Rightarrow>
             (let tr2 = tr1 @ [Scrape_url url]
              in case scrape_url w (count_ev is_Scrape_url tr1) url of
                   Returns page \<Rightarrow>
                     scrape_sources w progress_cb n_results (Suc i) rest
                       (if success page then sources @ [page] else sources, tr2)
                 | Raises e \<Rightarrow> scrape_sources w progress_cb n_results (Suc i) rest (sources, tr2)))"

text \<open>
  Step 2 of \<^verbatim>\<open>research\<close>, the block under \<^verbatim>\<open>if depth in ['standard', 'deep']\<close>.
\<close>

definition research_scrape ::
  "env \<Rightarrow> callback option \<Rightarrow> string \<Rightarrow> pydict list \<Rightarrow> trace
     \<Rightarrow> exn option \<times> scraped list \<times> trace" where
  "research_scrape w progress_cb depth results tr =
     (if depth = ''standard'' \<or> depth = ''deep'' then
        (let msg = ''Scraping '' @ str_nat (length results) @ '' sources...''
         in case announce w progress_cb (icon_scraping @ '' '' @ msg) msg tr of
              (Some e, tr1) \<Rightarrow> (Some e, [], tr1)
            | (None, tr1) \<Rightarrow>
                scrape_sources w progress_cb (length results) 1 results ([], tr1))
      else (None, [], tr))"

text \<open>
  The part of \<^verbatim>\<open>research\<close> after the search: the page slice, the dict, the early
  return with the error, step 2, step 3 and the final append.  \<^verbatim>\<open>_analyze_with_ai\<close>
  catches every exception of both back ends and returns a string.
\<close>

definition research_page ::
  "env \<Rightarrow> callback option \<Rightarrow> string \<Rightarrow> string \<Rightarrow> int \<Rightarrow> int \<Rightarrow> pydict list
     \<Rightarrow> AIResearchAgent \<times> trace \<Rightarrow> (exn + research_data) \<times> AIResearchAgent \<times> trace" where
  "research_page w progress_cb query depth page per_page all_results st =
     (case st of (ag, tr) \<Rightarrow>
        (let results = page_results all_results page per_page;
             data = \<lparr>rd_query = query,
                     rd_timestamp = now_isoformat w (length tr),
                     rd_search_results = results,
                     rd_sources = [],
                     rd_page = page,
                     rd_per_page = per_page,
                     rd_has_more = has_more all_results page per_page,
                     rd_error = None,
                     rd_analysis = None\<rparr>
         in if results = [] then
              (let data1 = data\<lparr>rd_error := Some ''No search results found''\<rparr>
               in (Inr data1, ag\<lparr>research_history := research_history ag @ [data1]\<rparr>, tr))
            else
              (case research_scrape w progress_cb depth results tr of
                 (Some e, sources, tr1) \<Rightarrow> (Inl e, ag, tr1)
               | (None, sources, tr1) \<Rightarrow>
                   (let data2 = data\<lparr>rd_sources := sources\<rparr>
                    in if depth = ''deep'' \<and> use_ai ag then
                         (case announce w progress_cb
                                 (icon_analyzing @ '' Analyzing with '' @ ai_backend ag @ ''...'')
                                 (''Analyzing with '' @ ai_backend ag @ ''...'') tr1 of
                            (Some e, tr2) \<Rightarrow> (Inl e, ag, tr2)
                          | (None, tr2) \<Rightarrow>
                              (let data3 = data2\<lparr>rd_analysis :=
                                                   Some (analyze_with_ai w (length tr2))\<rparr>
                               in (Inr data3,
                                   ag\<lparr>research_history := research_history ag @ [data3]\<rparr>,
                                   tr2 @ [Analyze_with_ai])))
                       else (Inr data2,
                             ag\<lparr>research_history := research_history ag @ [data2]\<rparr>,
                             tr1)))))"

text \<open>
  \<^verbatim>\<open>research\<close>: the two announcements, the sizes of the page and of the fetch, step 1
  (the search) and then the rest.  An exception of the search passes through.
\<close>

definition research ::
  "env \<Rightarrow> string \<Rightarrow> string \<Rightarrow> int \<Rightarrow> bool \<Rightarrow> int \<Rightarrow> int option \<Rightarrow> callback option
     \<Rightarrow> AIResearchAgent \<times> trace \<Rightarrow> (exn + research_data) \<times> AIResearchAgent \<times> trace" where
  "research w query depth max_sources news page per_page progress_cb st =
     (case st of (ag, tr) \<Rightarrow>
        (case announce w progress_cb (CHR 0x0A # icon_researching @ '' Researching: '' @ query)
                (''Researching: '' @ query) tr of
           (Some e, tr1) \<Rightarrow> (Inl e, ag, tr1)
         | (None, tr1) \<Rightarrow>
             (let per_page = resolve_per_page per_page max_sources;
                  page = max 0 page;
                  fetch = fetch_n page per_page;
                  step_msg = (if news then ''Searching the news...'' else ''Searching the web...'')
              in case announce w progress_cb (icon_searching @ '' '' @ step_msg) step_msg tr1 of
                   (Some e, tr2) \<Rightarrow> (Inl e, ag, tr2)
                 | (None, tr2) \<Rightarrow>
                     (case (if news then news_search w query fetch (search_engine ag, tr2)
                            else search w query fetch (search_engine ag, tr2)) of
                        (Inl e, se1, tr3) \<Rightarrow> (Inl e, ag\<lparr>search_engine := se1\<rparr>, tr3)
                      | (Inr all_results, se1, tr3) \<Rightarrow>
                          research_page w progress_cb query depth page per_page all_results
                            (ag\<lparr>search_engine := se1\<rparr>, tr3)))))"

section \<open>Concrete engines and environments\<close>

text \<open>
  \<^verbatim>\<open>SearchEngine.__init__\<close>: the credentials are read from the process environment, the
  preference is lower-cased and the rotation starts at slot 0.
\<close>

definition SearchEngine_init :: "string option \<Rightarrow> string option \<Rightarrow> string \<Rightarrow> SearchEngine" where
  "SearchEngine_init api_key cse_id preferred =
     \<lparr>google_api_key = api_key, google_cse_id = cse_id,
      preferred_engine = str_lower preferred, backend_idx = 0, ddgs = 0\<rparr>"

text \<open>Raw hits and replies that stand for the providers in the examples below.\<close>

definition hit :: "string \<Rightarrow> pydict" where
  "hit u = [(''title'', ''T''), (''href'', u), (''body'', ''B'')]"

definition item :: "string \<Rightarrow> pydict" where
  "item u = [(''title'', ''T''), (''link'', u), (''snippet'', ''S'')]"

definition ratelimited :: "pydict list option reply" where
  "ratelimited = Raises (DuckDuckGoSearchException ''202 Ratelimit'')"

definition three_hits :: "pydict list option reply" where
  "three_hits = Returns (Some [hit ''a'', hit ''b'', hit ''c''])"

text \<open>
  An environment whose replies depend only on the number of earlier calls of the same
  kind; every page scrapes well, the language model answers and printing succeeds.
\<close>

definition env_of ::
  "(nat \<Rightarrow> pydict list option reply) \<Rightarrow> (nat \<Rightarrow> pydict list option reply)
     \<Rightarrow> (nat \<Rightarrow> pydict list option reply) \<Rightarrow> env" where
  "env_of text_replies news_replies get_replies =
     \<lparr>ddgs_text = (\<lambda>k q n b. text_replies k),
      ddgs_news = (\<lambda>k q n. news_replies k),
      requests_get = (\<lambda>k q s n. get_replies k),
      random_uniform = (\<lambda>k. 0),
      scrape_url = (\<lambda>k u. Returns \<lparr>success = True, entries = [(''url'', u)]\<rparr>),
      analyze_with_ai = (\<lambda>k. ''summary''),
      now_isoformat = (\<lambda>k. ''2024-01-01T00:00:00''),
      print_out = (\<lambda>k m. Returns ())\<rparr>"

text \<open>Every provider fails on every call.\<close>

definition env_down :: env where
  "env_down = env_of (\<lambda>k. ratelimited) (\<lambda>k. ratelimited) (\<lambda>k. Raises (HTTPError (Some 429)))"

text \<open>
  The fallback client is rate-limited on its first call and answers three hits
  afterwards; the primary client has nothing.
\<close>

definition env_ratelimit_once :: env where
  "env_ratelimit_once =
     env_of (\<lambda>k. if k = 0 then ratelimited else three_hits) (\<lambda>k. ratelimited)
       (\<lambda>k. Returns None)"

text \<open>The fallback client times out on its first call and answers three hits afterwards.\<close>

definition env_timeout_once :: env where
  "env_timeout_once =
     env_of (\<lambda>k. if k = 0 then Raises (OtherException ''timed out'') else three_hits)
       (\<lambda>k. ratelimited) (\<lambda>k. Returns None)"

text \<open>
  The news endpoint fails on every call, the text endpoint answers three hits and the
  primary client has nothing.
\<close>

definition env_news_down :: env where
  "env_news_down = env_of (\<lambda>k. three_hits) (\<lambda>k. ratelimited) (\<lambda>k. Returns None)"


text \<open>The fallback client is rate-limited on its eighth call only.\<close>

definition env_ratelimit_late :: env where
  "env_ratelimit_late =
     env_of (\<lambda>k. if k = 7 then ratelimited else three_hits) (\<lambda>k. ratelimited)
       (\<lambda>k. Returns None)"

text \<open>A progress callback that raises on every call.\<close>

definition failing_callback :: callback where
  "failing_callback = (\<lambda>k m. Raises (OtherException ''callback failed''))"

text \<open>
  The primary client answers ten items to every request; the fallback client answers at
  most three hits and never more than it is asked for.
\<close>

definition ten_items :: "pydict list" where
  "ten_items = map item [''g0'', ''g1'', ''g2'', ''g3'', ''g4'', ''g5'', ''g6'', ''g7'', ''g8'', ''g9'']"

definition env_honest :: env where
  "env_honest =
     (env_of (\<lambda>k. three_hits) (\<lambda>k. ratelimited) (\<lambda>k. Returns (Some ten_items)))
       \<lparr>ddgs_text := (\<lambda>k q n b. Returns (Some (take (nat n) [hit ''a'', hit ''b'', hit ''c''])))\<rparr>"

text \<open>\<^verbatim>\<open>AIResearchAgent.__init__\<close>, with the credentials of the process environment.\<close>

definition AIResearchAgent_init ::
  "string option \<Rightarrow> string option \<Rightarrow> bool \<Rightarrow> string \<Rightarrow> string \<Rightarrow> AIResearchAgent" where
  "AIResearchAgent_init api_key cse_id ai backend engine =
     \<lparr>search_engine = SearchEngine_init api_key cse_id engine,
      use_ai = ai, ai_backend = backend, research_history = []\<rparr>"

section \<open>Auxiliary facts\<close>

lemma count_ev_Nil [simp]: "count_ev p [] = 0"
  by (simp add: count_ev_def)

lemma count_ev_Cons [simp]: "count_ev p (e # tr) = (if p e then 1 else 0) + count_ev p tr"
  by (simp add: count_ev_def)

lemma count_ev_append [simp]: "count_ev p (tr @ tr') = count_ev p tr + count_ev p tr'"
  by (simp add: count_ev_def)

lemma make_ddgs_pair [simp]:
  "make_ddgs (se, tr) = (se\<lparr>ddgs := Suc (ddgs se)\<rparr>, tr @ [Make_ddgs])"
  by (simp add: make_ddgs_def)

lemma advance_backend_pair [simp]:
  "advance_backend (se, tr) = (se\<lparr>backend_idx := (backend_idx se + 1) mod 3\<rparr>, tr)"
  by (simp add: advance_backend_def backends_cycle_def)

lemma retry_backoff_trace:
  "retry_backoff w attempt tr =
     tr @ [Call_retry_backoff attempt, Random_uniform,
           Sleep (sleep_time attempt (random_uniform w (count_ev is_Random_uniform tr)))]"
  by (simp add: retry_backoff_def Let_def)

subsection \<open>Events a method never emits\<close>

lemma ddg_except_count:
  assumes "\<not> p Make_ddgs" and "\<And>a. \<not> p (Call_retry_backoff a)"
    and "\<not> p Random_uniform" and "\<And>t. \<not> p (Sleep t)"
  shows "count_ev p (snd (ddg_except w attempt e (se, tr))) = count_ev p tr"
  using assms
  by (simp add: ddg_except_def recreate_and_sleep_def retry_backoff_trace split: exn.splits)

lemma ddg_attempts_count:
  assumes "\<not> p Make_ddgs" and "\<And>a. \<not> p (Call_retry_backoff a)"
    and "\<not> p Random_uniform" and "\<And>t. \<not> p (Sleep t)"
    and "\<And>q n b. \<not> p (Ddgs_text q n b)"
  shows "count_ev p (snd (snd (ddg_attempts w query m left attempt (se, tr)))) = count_ev p tr"
proof (induction left arbitrary: attempt se tr)
  case 0
  then show ?case by simp
next
  case (Suc left)
  show ?case
  proof (cases "ddgs_text w (count_ev is_Ddgs_text tr) query m (current_backend se)")
    case (Returns raw)
    then show ?thesis using assms(5) by (simp add: Let_def)
  next
    case (Raises e)
    obtain se1 tr1 where st1:
      "ddg_except w attempt e (se, tr @ [Ddgs_text query m (current_backend se)]) = (se1, tr1)"
      by (cases "ddg_except w attempt e (se, tr @ [Ddgs_text query m (current_backend se)])")
    have "count_ev p tr1 = count_ev p tr"
      using ddg_except_count [OF assms(1-4), of w attempt e se
          "tr @ [Ddgs_text query m (current_backend se)]"] st1 assms(5) by simp
    then show ?thesis using Raises st1 Suc.IH [of "attempt + 1" se1 tr1] by (simp add: Let_def)
  qed
qed

lemma search_duckduckgo_count:
  assumes "\<not> p Make_ddgs" and "\<And>a. \<not> p (Call_retry_backoff a)"
    and "\<not> p Random_uniform" and "\<And>t. \<not> p (Sleep t)"
    and "\<And>q n b. \<not> p (Ddgs_text q n b)"
  shows "count_ev p (snd (snd (search_duckduckgo w query max_results (se, tr))))
           = count_ev p tr + (if p (Call_search_duckduckgo query max_results) then 1 else 0)"
proof -
  let ?tr = "tr @ [Call_search_duckduckgo query max_results]"
  let ?m = "max 1 (min max_results 20)"
  obtain r se1 tr1 where run: "ddg_attempts w query ?m 5 0 (se, ?tr) = (r, se1, tr1)"
    by (cases "ddg_attempts w query ?m 5 0 (se, ?tr)")
  have "count_ev p (snd (snd (ddg_attempts w query ?m 5 0 (se, ?tr)))) = count_ev p ?tr"
    using assms by (intro ddg_attempts_count)
  then have "count_ev p tr1 = count_ev p ?tr" by (simp add: run)
  then show ?thesis using run by (simp add: Let_def split: option.splits)
qed

lemma google_requests_count:
  assumes "\<And>q s n. \<not> p (Requests_get q s n)"
  shows "count_ev p (snd (google_requests w query max_results left i results tr)) = count_ev p tr"
  using assms
  by (induction left arbitrary: i results tr) (simp_all add: Let_def split: reply.splits)

lemma search_google_count:
  assumes "\<And>q s n. \<not> p (Requests_get q s n)"
  shows "count_ev p (snd (snd (search_google w query max_results (se, tr))))
           = count_ev p tr + (if p (Call_search_google query max_results) then 1 else 0)"
proof -
  let ?tr = "tr @ [Call_search_google query max_results]"
  let ?k = "nat (min ((max_results + 9) div 10) 3)"
  obtain r tr1 where run: "google_requests w query max_results ?k 0 [] ?tr = (r, tr1)"
    by (cases "google_requests w query max_results ?k 0 [] ?tr")
  have "count_ev p (snd (google_requests w query max_results ?k 0 [] ?tr)) = count_ev p ?tr"
    using assms by (intro google_requests_count)
  then have "count_ev p tr1 = count_ev p ?tr" by (simp add: run)
  then show ?thesis using run by (simp add: Let_def split: sum.splits exn.splits option.splits)
qed


lemma search_google_engine: "fst (snd (search_google w query max_results (se, tr))) = se"
  by (simp add: Let_def split: prod.splits sum.splits exn.splits option.splits)

lemma search_duckduckgo_Inr:
  "\<exists>results. fst (search_duckduckgo w query max_results (se, tr)) = Inr results"
  by (simp add: Let_def split: prod.splits option.splits)

text \<open>An exception that leaves the request loop was raised by a request.\<close>

lemma google_requests_Inl:
  assumes "fst (google_requests w query max_results left i results tr) = Inl e"
  shows "\<exists>k q s n. requests_get w k q s n = Raises e"
  using assms
proof (induction left arbitrary: i results tr)
  case 0
  then show ?case by simp
next
  case (Suc left)
  show ?case
  proof (cases "requests_get w (count_ev is_Requests_get tr) query (int i * 10 + 1)
                  (min 10 (max_results - int (length results)))")
    case (Raises e')
    then have "e' = e" using Suc.prems by (simp add: Let_def)
    then show ?thesis using Raises by blast
  next
    case (Returns data)
    then show ?thesis using Suc.prems Suc.IH by (auto simp: Let_def split: if_splits)
  qed
qed

text \<open>
  The primary client returns a list whenever every \<^verbatim>\<open>HTTPError\<close> of the provider
  carries a response.
\<close>

lemma search_google_Inr:
  assumes "\<forall>k q s n. requests_get w k q s n \<noteq> Raises (HTTPError None)"
  shows "\<exists>results. fst (search_google w query max_results (se, tr)) = Inr results"
proof -
  let ?tr = "tr @ [Call_search_google query max_results]"
  let ?k = "nat (min ((max_results + 9) div 10) 3)"
  obtain r tr1 where run: "google_requests w query max_results ?k 0 [] ?tr = (r, tr1)"
    by (cases "google_requests w query max_results ?k 0 [] ?tr")
  have "r \<noteq> Inl (HTTPError None)"
    using google_requests_Inl [of w query max_results ?k 0 "[]" ?tr "HTTPError None"] run assms
    by auto
  then show ?thesis using run
    by (auto simp: Let_def split: sum.splits exn.splits option.splits)
qed

lemma google_requests_extends:
  "\<exists>evs. snd (google_requests w query max_results left i results tr) = tr @ evs"
proof (induction left arbitrary: i results tr)
  case 0
  then show ?case by simp
next
  case (Suc left)
  let ?e = "Requests_get query (int i * 10 + 1) (min 10 (max_results - int (length results)))"
  show ?case
  proof (cases "requests_get w (count_ev is_Requests_get tr) query (int i * 10 + 1)
                  (min 10 (max_results - int (length results)))")
    case (Raises e)
    then show ?thesis by (simp add: Let_def)
  next
    case (Returns data)
    from Suc.IH [of "Suc i" "results @ map google_record (or_empty data)" "tr @ [?e]"]
    obtain evs where "snd (google_requests w query max_results left (Suc i)
        (results @ map google_record (or_empty data)) (tr @ [?e])) = tr @ ?e # evs"
      by auto
    then show ?thesis using Returns by (simp add: Let_def)
  qed
qed

lemma search_google_extends:
  "\<exists>evs. snd (snd (search_google w query max_results (se, tr)))
           = tr @ Call_search_google query max_results # evs"
proof -
  let ?tr = "tr @ [Call_search_google query max_results]"
  let ?k = "nat (min ((max_results + 9) div 10) 3)"
  obtain r tr1 where run: "google_requests w query max_results ?k 0 [] ?tr = (r, tr1)"
    by (cases "google_requests w query max_results ?k 0 [] ?tr")
  from google_requests_extends [of w query max_results ?k 0 "[]" ?tr] run
  obtain evs where "tr1 = ?tr @ evs" by auto
  then show ?thesis using run by (simp add: Let_def split: sum.splits exn.splits option.splits)
qed


declare search_google.simps [simp del] search_duckduckgo.simps [simp del]

lemma search_google_run:
  "\<exists>r tr1. search_google w query max_results (se, tr) = (r, se, tr1)"
proof -
  obtain r se1 tr1 where run: "search_google w query max_results (se, tr) = (r, se1, tr1)"
    by (cases "search_google w query max_results (se, tr)")
  then show ?thesis using search_google_engine [of w query max_results se tr] by simp
qed

lemma search_google_result:
  assumes "\<forall>k q s n. requests_get w k q s n \<noteq> Raises (HTTPError None)"
  shows "\<exists>g tr1. search_google w query max_results (se, tr) = (Inr g, se, tr1)"
proof -
  obtain r tr1 where run: "search_google w query max_results (se, tr) = (r, se, tr1)"
    using search_google_run by blast
  then show ?thesis using search_google_Inr [OF assms, of query max_results se tr] by simp
qed

lemma search_duckduckgo_result:
  "\<exists>r se1 tr1. search_duckduckgo w query max_results (se, tr) = (Inr r, se1, tr1)"
proof -
  obtain r se1 tr1 where run: "search_duckduckgo w query max_results (se, tr) = (r, se1, tr1)"
    by (cases "search_duckduckgo w query max_results (se, tr)")
  then show ?thesis
    using search_duckduckgo_Inr [of w query max_results se tr] by simp
qed

lemma google_then_duckduckgo_result:
  assumes "\<forall>k q s n. requests_get w k q s n \<noteq> Raises (HTTPError None)"
  shows "\<exists>r se1 tr1. google_then_duckduckgo w query max_results (se, tr) = (Inr r, se1, tr1)"
proof -
  obtain g tr1 where g: "search_google w query max_results (se, tr) = (Inr g, se, tr1)"
    using search_google_result [OF assms] by blast
  show ?thesis
    using g search_duckduckgo_result [of w query max_results se tr1]
    by (auto simp: google_then_duckduckgo_def)
qed

text \<open>
  The search returns a list whenever every \<^verbatim>\<open>HTTPError\<close> of the provider carries a
  response.
\<close>

lemma search_result:
  assumes "\<forall>k q s n. requests_get w k q s n \<noteq> Raises (HTTPError None)"
  shows "\<exists>r se1 tr1. search w query max_results (se, tr) = (Inr r, se1, tr1)"
  using search_duckduckgo_result [of w query max_results se "tr @ [Call_search query max_results]"]
    google_then_duckduckgo_result [OF assms, of query max_results se
      "tr @ [Call_search query max_results]"]
  by (simp add: Let_def)

lemma search_run:
  "\<exists>r se1 tr1. search w query max_results (se, tr) = (r, se1, tr1)"
  by (cases "search w query max_results (se, tr)") blast

subsection \<open>Unfolding the loops at a numeral\<close>

lemma ddg_attempts_numeral:
  "ddg_attempts w query max_results (numeral k) attempt (se, tr) =
     (let backend = current_backend se;
          tr1 = tr @ [Ddgs_text query max_results backend]
      in case ddgs_text w (count_ev is_Ddgs_text tr) query max_results backend of
           Returns results_raw \<Rightarrow> (Some (map text_record (or_empty results_raw)), se, tr1)
         | Raises e \<Rightarrow>
             ddg_attempts w query max_results (pred_numeral k) (attempt + 1)
               (ddg_except w attempt e (se, tr1)))"
  unfolding numeral_eq_Suc [of k] by (rule ddg_attempts.simps(2))

lemma news_attempts_numeral:
  "news_attempts w query max_results (numeral k) attempt (se, tr) =
     (let tr1 = tr @ [Ddgs_news query max_results]
      in case ddgs_news w (count_ev is_Ddgs_news tr) query max_results of
           Returns results_raw \<Rightarrow> (Some (map news_record (or_empty results_raw)), se, tr1)
         | Raises e \<Rightarrow>
             news_attempts w query max_results (pred_numeral k) (attempt + 1)
               (news_except w attempt e (se, tr1)))"
  unfolding numeral_eq_Suc [of k] by (rule news_attempts.simps(2))

lemma google_requests_numeral:
  "google_requests w query max_results (numeral k) i results tr =
     (let start_index = int i * 10 + 1;
          num = min 10 (max_results - int (length results));
          tr1 = tr @ [Requests_get query start_index num]
      in case requests_get w (count_ev is_Requests_get tr) query start_index num of
           Raises e \<Rightarrow> (Inl e, tr1)
         | Returns data \<Rightarrow>
             (let items = or_empty data
              in if items = [] then (Inr results, tr1)
                 else (let results1 = results @ map google_record items
                       in if int (length results1) \<ge> max_results then (Inr results1, tr1)
                          else google_requests w query max_results (pred_numeral k) (Suc i)
                                 results1 tr1)))"
  unfolding numeral_eq_Suc [of k] by (rule google_requests.simps(2))

subsection \<open>Evaluating the examples\<close>

lemmas eval_defs = SearchEngine_init_def hit_def item_def ratelimited_def three_hits_def env_of_def
  str_lower_def chr_lower_def search_google.simps search_duckduckgo.simps
  search.simps news_search.simps
  google_then_duckduckgo_def truthy_def opt_str_def
  ddg_attempts_numeral news_attempts_numeral google_requests_numeral
  ddg_except_def recreate_and_sleep_def retry_backoff_trace is_ratelimit_def
  news_except_def recreate_and_backoff_def
  current_backend_def backends_cycle_def or_empty_def py_slice_def sleep_time_def


lemma search_google_events:
  "\<exists>r evs. search_google w query max_results (se, tr)
             = (r, se, tr @ Call_search_google query max_results # evs)
         \<and> count_ev is_Call_search_duckduckgo evs = 0 \<and> count_ev is_Ddgs_text evs = 0"
proof -
  obtain r tr1 where g: "search_google w query max_results (se, tr) = (r, se, tr1)"
    using search_google_run by blast
  obtain evs where evs: "tr1 = tr @ Call_search_google query max_results # evs"
    using search_google_extends [of w query max_results se tr] g by auto
  have "count_ev is_Call_search_duckduckgo tr1 = count_ev is_Call_search_duckduckgo tr"
    using search_google_count [of is_Call_search_duckduckgo w query max_results se tr] g by simp
  moreover have "count_ev is_Ddgs_text tr1 = count_ev is_Ddgs_text tr"
    using search_google_count [of is_Ddgs_text w query max_results se tr] g by simp
  ultimately show ?thesis using g evs by simp
qed

lemma raises_iff: "raises r \<longleftrightarrow> (\<exists>e. r = Raises e)"
  by (cases r) simp_all

text \<open>The news search catches what the generic search raises.\<close>

lemma news_search_result:
  "\<exists>r se1 tr1. news_search w query max_results (se, tr) = (Inr r, se1, tr1)"
proof -
  let ?m = "max 1 (min max_results 20)"
  obtain r se1 tr1 where run: "news_attempts w query ?m 5 0 (se, tr) = (r, se1, tr1)"
    by (cases "news_attempts w query ?m 5 0 (se, tr)")
  obtain g se2 tr2 where g: "search w (query @ '' news'') ?m (se1, tr1) = (g, se2, tr2)"
    using search_run by blast
  show ?thesis using run g
    by (cases r; cases g) (simp_all add: Let_def del: search.simps)
qed

declare search.simps [simp del] news_search.simps [simp del]

subsection \<open>The attempts of the fallback client\<close>

lemma ddg_except_text_count:
  "count_ev is_Ddgs_text (snd (ddg_except w attempt e (se, tr))) = count_ev is_Ddgs_text tr"
  by (simp add: ddg_except_count)

lemma ddg_attempts_text_count_le:
  "count_ev is_Ddgs_text (snd (snd (ddg_attempts w query m left attempt (se, tr))))
     \<le> count_ev is_Ddgs_text tr + left"
proof (induction left arbitrary: attempt se tr)
  case 0
  then show ?case by simp
next
  case (Suc left)
  let ?tr1 = "tr @ [Ddgs_text query m (current_backend se)]"
  show ?case
  proof (cases "ddgs_text w (count_ev is_Ddgs_text tr) query m (current_backend se)")
    case (Returns raw)
    then show ?thesis by (simp add: Let_def)
  next
    case (Raises e)
    obtain se1 tr1 where st1: "ddg_except w attempt e (se, ?tr1) = (se1, tr1)"
      by (cases "ddg_except w attempt e (se, ?tr1)")
    have "count_ev is_Ddgs_text tr1 = count_ev is_Ddgs_text tr + 1"
      using ddg_except_text_count [of w attempt e se ?tr1] st1 by simp
    then show ?thesis using Raises st1 Suc.IH [of "attempt + 1" se1 tr1] by (simp add: Let_def)
  qed
qed

lemma ddg_attempts_exhausted:
  assumes "\<forall>j<left. \<forall>b. raises (ddgs_text w (count_ev is_Ddgs_text tr + j) query m b)"
  shows "fst (ddg_attempts w query m left attempt (se, tr)) = None
       \<and> count_ev is_Ddgs_text (snd (snd (ddg_attempts w query m left attempt (se, tr))))
           = count_ev is_Ddgs_text tr + left"
  using assms
proof (induction left arbitrary: attempt se tr)
  case 0
  then show ?case by simp
next
  case (Suc left)
  let ?tr1 = "tr @ [Ddgs_text query m (current_backend se)]"
  have "raises (ddgs_text w (count_ev is_Ddgs_text tr + 0) query m (current_backend se))"
    using Suc.prems by blast
  then obtain e where e: "ddgs_text w (count_ev is_Ddgs_text tr) query m (current_backend se) = Raises e"
    by (auto simp: raises_iff)
  obtain se1 tr1 where st1: "ddg_except w attempt e (se, ?tr1) = (se1, tr1)"
    by (cases "ddg_except w attempt e (se, ?tr1)")
  have c: "count_ev is_Ddgs_text tr1 = count_ev is_Ddgs_text tr + 1"
    using ddg_except_text_count [of w attempt e se ?tr1] st1 by simp
  have "\<forall>j<left. \<forall>b. raises (ddgs_text w (count_ev is_Ddgs_text tr1 + j) query m b)"
  proof (intro allI impI)
    fix j b assume "j < left"
    then have "Suc j < Suc left" by simp
    then have "raises (ddgs_text w (count_ev is_Ddgs_text tr + Suc j) query m b)"
      using Suc.prems by blast
    then show "raises (ddgs_text w (count_ev is_Ddgs_text tr1 + j) query m b)" by (simp add: c)
  qed
  from Suc.IH [OF this, of "attempt + 1" se1] show ?case using e st1 c by (simp add: Let_def)
qed

lemma ddg_attempts_returns:
  assumes "ddgs_text w (count_ev is_Ddgs_text tr) query m (current_backend se) = Returns raw"
  shows "ddg_attempts w query m (Suc left) attempt (se, tr)
           = (Some (map text_record (or_empty raw)), se,
              tr @ [Ddgs_text query m (current_backend se)])"
  using assms by (simp add: Let_def)

lemma ddg_attempts_ratelimit:
  assumes "ddgs_text w (count_ev is_Ddgs_text tr) query m (current_backend se)
             = Raises (DuckDuckGoSearchException msg)"
    and "is_ratelimit msg" and "attempt < 4"
  shows "ddg_attempts w query m (Suc left) attempt (se, tr)
           = ddg_attempts w query m left (attempt + 1)
               (se\<lparr>backend_idx := (backend_idx se + 1) mod 3, ddgs := Suc (ddgs se)\<rparr>,
                tr @ [Ddgs_text query m (current_backend se), Make_ddgs,
                      Call_retry_backoff attempt, Random_uniform,
                      Sleep (sleep_time attempt
                               (random_uniform w (count_ev is_Random_uniform tr)))])"
  using assms by (simp add: Let_def ddg_except_def retry_backoff_trace)

lemma ddg_attempts_other_failure:
  assumes "ddgs_text w (count_ev is_Ddgs_text tr) query m (current_backend se) = Raises e"
    and "\<forall>msg. e = DuckDuckGoSearchException msg \<longrightarrow> \<not> is_ratelimit msg" and "attempt < 4"
  shows "ddg_attempts w query m (Suc left) attempt (se, tr)
           = ddg_attempts w query m left (attempt + 1)
               (se\<lparr>ddgs := Suc (ddgs se)\<rparr>,
                tr @ [Ddgs_text query m (current_backend se), Make_ddgs, Sleep 1])"
  using assms by (simp add: Let_def ddg_except_def recreate_and_sleep_def split: exn.splits)

lemma search_duckduckgo_exhausted:
  assumes "\<forall>j<5. \<forall>b. raises (ddgs_text w (count_ev is_Ddgs_text tr + j) query
                              (max 1 (min max_results 20)) b)"
  shows "fst (search_duckduckgo w query max_results (se, tr)) = Inr []
       \<and> count_ev is_Ddgs_text (snd (snd (search_duckduckgo w query max_results (se, tr))))
           = count_ev is_Ddgs_text tr + 5"
proof -
  let ?tr = "tr @ [Call_search_duckduckgo query max_results]"
  let ?m = "max 1 (min max_results 20)"
  obtain r se1 tr1 where run: "ddg_attempts w query ?m 5 0 (se, ?tr) = (r, se1, tr1)"
    by (cases "ddg_attempts w query ?m 5 0 (se, ?tr)")
  have "\<forall>j<5. \<forall>b. raises (ddgs_text w (count_ev is_Ddgs_text ?tr + j) query ?m b)"
    using assms by simp
  from ddg_attempts_exhausted [OF this, of 0 se] run
  have "r = None" and "count_ev is_Ddgs_text tr1 = count_ev is_Ddgs_text tr + 5" by simp_all
  then show ?thesis using run by (simp add: search_duckduckgo.simps Let_def)
qed

lemma search_duckduckgo_text_count_le:
  "count_ev is_Ddgs_text (snd (snd (search_duckduckgo w query max_results (se, tr))))
     \<le> count_ev is_Ddgs_text tr + 5"
proof -
  let ?tr = "tr @ [Call_search_duckduckgo query max_results]"
  let ?m = "max 1 (min max_results 20)"
  obtain r se1 tr1 where run: "ddg_attempts w query ?m 5 0 (se, ?tr) = (r, se1, tr1)"
    by (cases "ddg_attempts w query ?m 5 0 (se, ?tr)")
  have "count_ev is_Ddgs_text tr1 \<le> count_ev is_Ddgs_text ?tr + 5"
    using ddg_attempts_text_count_le [of w query ?m 5 0 se ?tr] run by simp
  then show ?thesis using run by (simp add: search_duckduckgo.simps Let_def split: option.splits)
qed

subsection \<open>The attempts of the news fetch\<close>

lemma news_except_count:
  assumes "\<not> p Make_ddgs" and "\<And>a. \<not> p (Call_retry_backoff a)"
    and "\<not> p Random_uniform" and "\<And>t. \<not> p (Sleep t)"
  shows "count_ev p (snd (news_except w attempt e (se, tr))) = count_ev p tr"
  using assms
  by (simp add: news_except_def recreate_and_backoff_def retry_backoff_trace split: exn.splits)

lemma news_attempts_exhausted:
  assumes "\<forall>j<left. raises (ddgs_news w (count_ev is_Ddgs_news tr + j) query m)"
  shows "fst (news_attempts w query m left attempt (se, tr)) = None
       \<and> count_ev is_Ddgs_news (snd (snd (news_attempts w query m left attempt (se, tr))))
           = count_ev is_Ddgs_news tr + left"
  using assms
proof (induction left arbitrary: attempt se tr)
  case 0
  then show ?case by simp
next
  case (Suc left)
  let ?tr1 = "tr @ [Ddgs_news query m]"
  have "raises (ddgs_news w (count_ev is_Ddgs_news tr + 0) query m)"
    using Suc.prems by blast
  then obtain e where e: "ddgs_news w (count_ev is_Ddgs_news tr) query m = Raises e"
    by (auto simp: raises_iff)
  obtain se1 tr1 where st1: "news_except w attempt e (se, ?tr1) = (se1, tr1)"
    by (cases "news_except w attempt e (se, ?tr1)")
  have c: "count_ev is_Ddgs_news tr1 = count_ev is_Ddgs_news tr + 1"
    using news_except_count [of is_Ddgs_news w attempt e se ?tr1] st1 by simp
  have "\<forall>j<left. raises (ddgs_news w (count_ev is_Ddgs_news tr1 + j) query m)"
  proof (intro allI impI)
    fix j assume "j < left"
    then have "Suc j < Suc left" by simp
    then have "raises (ddgs_news w (count_ev is_Ddgs_news tr + Suc j) query m)"
      using Suc.prems by blast
    then show "raises (ddgs_news w (count_ev is_Ddgs_news tr1 + j) query m)" by (simp add: c)
  qed
  from Suc.IH [OF this, of "attempt + 1" se1] show ?case using e st1 c by (simp add: Let_def)
qed

subsection \<open>What a search leaves of the engine\<close>

lemma replies_from_append:
  "replies_from w k (xs @ ys)
     = replies_from w k xs @ replies_from w (k + count_ev is_Ddgs_text xs) ys"
proof (induction xs arbitrary: k)
  case Nil
  then show ?case by simp
next
  case (Cons x xs)
  then show ?case by (cases x) simp_all
qed

lemma replies_from_none:
  "count_ev is_Ddgs_text evs = 0 \<Longrightarrow> replies_from w k evs = []"
proof (induction evs)
  case Nil
  then show ?case by simp
next
  case (Cons x evs)
  then show ?case by (cases x) (simp_all split: if_splits)
qed

lemma ddg_except_config:
  "google_api_key (fst (ddg_except w attempt e (se, tr))) = google_api_key se
   \<and> google_cse_id (fst (ddg_except w attempt e (se, tr))) = google_cse_id se
   \<and> preferred_engine (fst (ddg_except w attempt e (se, tr))) = preferred_engine se"
  by (simp add: ddg_except_def recreate_and_sleep_def split: exn.splits)

lemma ddg_except_step:
  "\<exists>se1 evs. ddg_except w attempt e (se, tr) = (se1, tr @ evs)
     \<and> count_ev is_Ddgs_text evs = 0
     \<and> backend_idx se1 = (if ratelimit_exn e then (backend_idx se + 1) mod 3 else backend_idx se)"
  by (cases e) (simp_all add: ddg_except_def recreate_and_sleep_def retry_backoff_trace)

lemma ddg_attempts_config:
  "google_api_key (fst (snd (ddg_attempts w query m left attempt (se, tr)))) = google_api_key se
   \<and> google_cse_id (fst (snd (ddg_attempts w query m left attempt (se, tr)))) = google_cse_id se
   \<and> preferred_engine (fst (snd (ddg_attempts w query m left attempt (se, tr))))
       = preferred_engine se"
proof (induction left arbitrary: attempt se tr)
  case 0
  then show ?case by simp
next
  case (Suc left)
  let ?tr1 = "tr @ [Ddgs_text query m (current_backend se)]"
  show ?case
  proof (cases "ddgs_text w (count_ev is_Ddgs_text tr) query m (current_backend se)")
    case (Returns raw)
    then show ?thesis by (simp add: Let_def)
  next
    case (Raises e)
    obtain se1 tr1 where st1: "ddg_except w attempt e (se, ?tr1) = (se1, tr1)"
      by (cases "ddg_except w attempt e (se, ?tr1)")
    then show ?thesis
      using Raises ddg_except_config [of w attempt e se ?tr1] Suc.IH [of "attempt + 1" se1 tr1]
      by (simp add: Let_def)
  qed
qed

text \<open>
  The engine after the attempts, from the replies that the attempts have met: each
  rate-limit failure has moved the backend index one slot further, and without any
  failure the engine is the one before.
\<close>

lemma ddg_attempts_engine:
  "\<exists>evs. snd (snd (ddg_attempts w query m left attempt (se, tr))) = tr @ evs
     \<and> backend_idx (fst (snd (ddg_attempts w query m left attempt (se, tr))))
         = (if length (filter ratelimit_reply (replies_from w (count_ev is_Ddgs_text tr) evs)) = 0
            then backend_idx se
            else (backend_idx se
                  + length (filter ratelimit_reply
                              (replies_from w (count_ev is_Ddgs_text tr) evs))) mod 3)
     \<and> ((\<forall>r \<in> set (replies_from w (count_ev is_Ddgs_text tr) evs). \<not> raises r)
          \<longrightarrow> fst (snd (ddg_attempts w query m left attempt (se, tr))) = se)"
proof (induction left arbitrary: attempt se tr)
  case 0
  show ?case by (rule exI [of _ "[]"]) simp
next
  case (Suc left)
  let ?c = "count_ev is_Ddgs_text tr"
  let ?T = "Ddgs_text query m (current_backend se)"
  let ?r0 = "ddgs_text w ?c query m (current_backend se)"
  show ?case
  proof (cases ?r0)
    case (Returns raw)
    show ?thesis by (rule exI [of _ "[?T]"]) (simp add: Returns Let_def)
  next
    case (Raises e)
    obtain se1 evs0 where ex: "ddg_except w attempt e (se, tr @ [?T]) = (se1, (tr @ [?T]) @ evs0)"
      and n0: "count_ev is_Ddgs_text evs0 = 0"
      and b1: "backend_idx se1
                 = (if ratelimit_exn e then (backend_idx se + 1) mod 3 else backend_idx se)"
      using ddg_except_step [of w attempt e se "tr @ [?T]"] by blast
    let ?tr1 = "(tr @ [?T]) @ evs0"
    have c1: "count_ev is_Ddgs_text ?tr1 = Suc ?c" using n0 by simp
    from Suc.IH [of "attempt + 1" se1 ?tr1]
    obtain evs1 where
      t1: "snd (snd (ddg_attempts w query m left (attempt + 1) (se1, ?tr1))) = ?tr1 @ evs1"
      and i1: "backend_idx (fst (snd (ddg_attempts w query m left (attempt + 1) (se1, ?tr1))))
         = (if length (filter ratelimit_reply (replies_from w (Suc ?c) evs1)) = 0
            then backend_idx se1
            else (backend_idx se1
                  + length (filter ratelimit_reply (replies_from w (Suc ?c) evs1))) mod 3)"
      unfolding c1 by blast
    have step: "ddg_attempts w query m (Suc left) attempt (se, tr)
                  = ddg_attempts w query m left (attempt + 1) (se1, ?tr1)"
      using Raises ex by (simp add: Let_def)
    let ?evs = "?T # evs0 @ evs1"
    have rs: "replies_from w ?c ?evs = Raises e # replies_from w (Suc ?c) evs1"
      using n0 Raises by (simp add: replies_from_append replies_from_none)
    have tr: "snd (snd (ddg_attempts w query m (Suc left) attempt (se, tr))) = tr @ ?evs"
      using step t1 by simp
    have idx: "backend_idx (fst (snd (ddg_attempts w query m (Suc left) attempt (se, tr))))
         = (if length (filter ratelimit_reply (replies_from w ?c ?evs)) = 0
            then backend_idx se
            else (backend_idx se
                  + length (filter ratelimit_reply (replies_from w ?c ?evs))) mod 3)"
      unfolding rs step i1 b1 by (simp add: mod_add_left_eq mod_Suc_eq)
    have same: "(\<forall>r \<in> set (replies_from w ?c ?evs). \<not> raises r)
          \<longrightarrow> fst (snd (ddg_attempts w query m (Suc left) attempt (se, tr))) = se"
      unfolding rs by simp
    show ?thesis using tr idx same by (intro exI [of _ ?evs] conjI)
  qed
qed


lemma search_duckduckgo_engine:
  assumes "count_ev is_Ddgs_text evs0 = 0"
  shows "\<exists>evs. snd (snd (search_duckduckgo w query max_results (se, tr @ evs0))) = tr @ evs
     \<and> google_api_key (fst (snd (search_duckduckgo w query max_results (se, tr @ evs0))))
         = google_api_key se
     \<and> google_cse_id (fst (snd (search_duckduckgo w query max_results (se, tr @ evs0))))
         = google_cse_id se
     \<and> preferred_engine (fst (snd (search_duckduckgo w query max_results (se, tr @ evs0))))
         = preferred_engine se
     \<and> backend_idx (fst (snd (search_duckduckgo w query max_results (se, tr @ evs0))))
         = (if length (filter ratelimit_reply (replies_from w (count_ev is_Ddgs_text tr) evs)) = 0
            then backend_idx se
            else (backend_idx se
                  + length (filter ratelimit_reply
                              (replies_from w (count_ev is_Ddgs_text tr) evs))) mod 3)
     \<and> ((\<forall>r \<in> set (replies_from w (count_ev is_Ddgs_text tr) evs). \<not> raises r)
          \<longrightarrow> fst (snd (search_duckduckgo w query max_results (se, tr @ evs0))) = se)"
proof -
  let ?c = "count_ev is_Ddgs_text tr"
  let ?pre = "evs0 @ [Call_search_duckduckgo query max_results]"
  let ?tr = "(tr @ evs0) @ [Call_search_duckduckgo query max_results]"
  let ?m = "max 1 (min max_results 20)"
  obtain r se1 tr1 where run: "ddg_attempts w query ?m 5 0 (se, ?tr) = (r, se1, tr1)"
    by (cases "ddg_attempts w query ?m 5 0 (se, ?tr)")
  have sd: "snd (search_duckduckgo w query max_results (se, tr @ evs0)) = (se1, tr1)"
    using run by (simp add: search_duckduckgo.simps Let_def split: option.splits)
  have c: "count_ev is_Ddgs_text ?tr = ?c" using assms by simp
  from ddg_attempts_engine [of w query ?m 5 0 se ?tr]
  obtain evs1 where t1: "tr1 = ?tr @ evs1"
    and i1: "backend_idx se1
         = (if length (filter ratelimit_reply (replies_from w ?c evs1)) = 0
            then backend_idx se
            else (backend_idx se + length (filter ratelimit_reply (replies_from w ?c evs1))) mod 3)"
    and s1: "(\<forall>r \<in> set (replies_from w ?c evs1). \<not> raises r) \<longrightarrow> se1 = se"
    unfolding c run by auto
  have rs: "replies_from w ?c (?pre @ evs1) = replies_from w ?c evs1"
    using assms by (simp add: replies_from_append replies_from_none)
  have cfg: "google_api_key se1 = google_api_key se \<and> google_cse_id se1 = google_cse_id se
             \<and> preferred_engine se1 = preferred_engine se"
    using ddg_attempts_config [of w query ?m 5 0 se ?tr] run by simp
  show ?thesis
    using t1 i1 s1 cfg unfolding sd [THEN arg_cong [of _ _ fst], simplified]
      sd [THEN arg_cong [of _ _ snd], simplified]
    by (intro exI [of _ "?pre @ evs1"]) (simp only: rs, simp)
qed

text \<open>
  The search either ends without a call of the fallback client and leaves the engine as
  it was, or it is the fallback client's search after events that hold no
  \<^verbatim>\<open>ddgs.text\<close> call.
\<close>

lemma search_shape:
  "(\<exists>r evs. search w query max_results (se, tr) = (r, se, tr @ evs)
             \<and> count_ev is_Ddgs_text evs = 0)
   \<or> (\<exists>evs. count_ev is_Ddgs_text evs = 0
            \<and> search w query max_results (se, tr)
                = search_duckduckgo w query max_results (se, tr @ evs))"
proof -
  let ?tr = "tr @ [Call_search query max_results]"
  obtain r gevs where g: "search_google w query max_results (se, ?tr)
        = (r, se, ?tr @ Call_search_google query max_results # gevs)"
    and n: "count_ev is_Ddgs_text gevs = 0"
    using search_google_events [of w query max_results se ?tr] by blast
  let ?evs = "Call_search query max_results # Call_search_google query max_results # gevs"
  have n': "count_ev is_Ddgs_text ?evs = 0" using n by simp
  have g': "search_google w query max_results (se, ?tr) = (r, se, tr @ ?evs)" using g by simp
  have both: "(\<exists>r evs. google_then_duckduckgo w query max_results (se, ?tr) = (r, se, tr @ evs)
                 \<and> count_ev is_Ddgs_text evs = 0)
        \<or> (\<exists>evs. count_ev is_Ddgs_text evs = 0
              \<and> google_then_duckduckgo w query max_results (se, ?tr)
                  = search_duckduckgo w query max_results (se, tr @ evs))"
  proof (cases "r = Inr []")
    case True
    then have "google_then_duckduckgo w query max_results (se, ?tr)
                 = search_duckduckgo w query max_results (se, tr @ ?evs)"
      using g' by (simp add: google_then_duckduckgo_def)
    then show ?thesis using n' by blast
  next
    case False
    then have "google_then_duckduckgo w query max_results (se, ?tr) = (r, se, tr @ ?evs)"
      using g' by (cases r) (simp_all add: google_then_duckduckgo_def)
    then show ?thesis using n' by blast
  qed
  have ddg: "\<exists>evs. count_ev is_Ddgs_text evs = 0
              \<and> search_duckduckgo w query max_results (se, ?tr)
                  = search_duckduckgo w query max_results (se, tr @ evs)"
    by (rule exI [of _ "[Call_search query max_results]"]) simp
  show ?thesis using both ddg by (auto simp: search.simps Let_def)
qed

subsection \<open>Events of the search layer\<close>

lemma search_count:
  assumes "\<not> p Make_ddgs" and "\<And>a. \<not> p (Call_retry_backoff a)"
    and "\<not> p Random_uniform" and "\<And>t. \<not> p (Sleep t)"
    and "\<And>q n b. \<not> p (Ddgs_text q n b)" and "\<And>q s n. \<not> p (Requests_get q s n)"
    and "\<And>q n. \<not> p (Call_search q n)" and "\<And>q n. \<not> p (Call_search_google q n)"
    and "\<And>q n. \<not> p (Call_search_duckduckgo q n)"
  shows "count_ev p (snd (snd (search w query max_results (se, tr)))) = count_ev p tr"
proof -
  let ?tr = "tr @ [Call_search query max_results]"
  have ddg: "\<And>tr'. count_ev p (snd (snd (search_duckduckgo w query max_results (se, tr'))))
               = count_ev p tr'"
    using assms(1-5,9) by (simp add: search_duckduckgo_count)
  obtain r tr1 where g: "search_google w query max_results (se, ?tr) = (r, se, tr1)"
    using search_google_run by blast
  have "count_ev p tr1 = count_ev p ?tr"
    using search_google_count [of p w query max_results se ?tr] g assms(6,8) by simp
  then have "count_ev p (snd (snd (google_then_duckduckgo w query max_results (se, ?tr))))
               = count_ev p tr"
    using g ddg [of tr1] assms(7) by (cases r) (simp_all add: google_then_duckduckgo_def)
  then show ?thesis using ddg [of ?tr] assms(7) by (simp add: search.simps Let_def)
qed

lemma news_attempts_count:
  assumes "\<not> p Make_ddgs" and "\<And>a. \<not> p (Call_retry_backoff a)"
    and "\<not> p Random_uniform" and "\<And>t. \<not> p (Sleep t)"
    and "\<And>q n. \<not> p (Ddgs_news q n)"
  shows "count_ev p (snd (snd (news_attempts w query m left attempt (se, tr)))) = count_ev p tr"
proof (induction left arbitrary: attempt se tr)
  case 0
  then show ?case by simp
next
  case (Suc left)
  let ?tr1 = "tr @ [Ddgs_news query m]"
  show ?case
  proof (cases "ddgs_news w (count_ev is_Ddgs_news tr) query m")
    case (Returns raw)
    then show ?thesis using assms(5) by (simp add: Let_def)
  next
    case (Raises e)
    obtain se1 tr1 where st1: "news_except w attempt e (se, ?tr1) = (se1, tr1)"
      by (cases "news_except w attempt e (se, ?tr1)")
    have "count_ev p tr1 = count_ev p tr"
      using news_except_count [of p w attempt e se ?tr1] assms st1 by simp
    then show ?thesis using Raises st1 Suc.IH [of "attempt + 1" se1 tr1] by (simp add: Let_def)
  qed
qed

lemma news_search_count:
  assumes "\<not> p Make_ddgs" and "\<And>a. \<not> p (Call_retry_backoff a)"
    and "\<not> p Random_uniform" and "\<And>t. \<not> p (Sleep t)"
    and "\<And>q n b. \<not> p (Ddgs_text q n b)" and "\<And>q s n. \<not> p (Requests_get q s n)"
    and "\<And>q n. \<not> p (Call_search q n)" and "\<And>q n. \<not> p (Call_search_google q n)"
    and "\<And>q n. \<not> p (Call_search_duckduckgo q n)" and "\<And>q n. \<not> p (Ddgs_news q n)"
  shows "count_ev p (snd (snd (news_search w query max_results (se, tr)))) = count_ev p tr"
proof -
  let ?m = "max 1 (min max_results 20)"
  obtain r se1 tr1 where run: "news_attempts w query ?m 5 0 (se, tr) = (r, se1, tr1)"
    by (cases "news_attempts w query ?m 5 0 (se, tr)")
  have c1: "count_ev p tr1 = count_ev p tr"
    using news_attempts_count [of p w query ?m 5 0 se tr] assms(1-4,10) run by simp
  obtain g se2 tr2 where g: "search w (query @ '' news'') ?m (se1, tr1) = (g, se2, tr2)"
    using search_run by blast
  have "count_ev p tr2 = count_ev p tr1"
    using search_count [of p w "query @ '' news''" ?m se1 tr1] assms(1-9) g by simp
  then show ?thesis using run g c1
    by (cases r; cases g) (simp_all add: news_search.simps Let_def)
qed

subsection \<open>The announcements of research\<close>

lemma announce_count:
  assumes "\<And>m. \<not> p (Print m)" and "\<And>m. \<not> p (Progress_cb m)"
  shows "count_ev p (snd (announce w progress_cb line message tr)) = count_ev p tr"
  using assms by (simp add: announce_def Let_def split: reply.splits option.splits)

text \<open>
  A callback that is absent or never raises, and a console that never raises, let every
  announcement pass.
\<close>

lemma announce_passes:
  assumes "\<forall>cb k m. progress_cb = Some cb \<longrightarrow> \<not> raises (cb k m)"
    and "\<forall>k m. \<not> raises (print_out w k m)"
  shows "fst (announce w progress_cb line message tr) = None"
proof -
  have "\<not> raises (print_out w (count_ev is_Print tr) line)"
    using assms(2) by blast
  then obtain u where p: "print_out w (count_ev is_Print tr) line = Returns u"
    by (cases "print_out w (count_ev is_Print tr) line") simp_all
  show ?thesis
  proof (cases progress_cb)
    case None
    then show ?thesis using p by (simp add: announce_def Let_def)
  next
    case (Some cb)
    then have "\<not> raises (cb (count_ev is_Progress_cb (tr @ [Print line])) message)"
      using assms(1) by blast
    then obtain v where "cb (count_ev is_Progress_cb (tr @ [Print line])) message = Returns v"
      by (cases "cb (count_ev is_Progress_cb (tr @ [Print line])) message") simp_all
    then show ?thesis using p Some by (simp add: announce_def Let_def del: count_ev_append)
  qed
qed

lemma scrape_sources_passes:
  assumes "\<forall>cb k m. progress_cb = Some cb \<longrightarrow> \<not> raises (cb k m)"
    and "\<forall>k m. \<not> raises (print_out w k m)"
  shows "fst (scrape_sources w progress_cb n_results i results (sources, tr)) = None"
proof (induction results arbitrary: i sources tr)
  case Nil
  then show ?case by simp
next
  case (Cons result rest)
  let ?url = "dict_get result ''url'' []"
  let ?line = "''  ['' @ str_nat i @ ''/'' @ str_nat n_results @ ''] '' @ ?url"
  let ?prog = "''Scraping ['' @ str_nat i @ ''/'' @ str_nat n_results @ ''] '' @ ?url"
  obtain tr1 where a: "announce w progress_cb ?line ?prog tr = (None, tr1)"
    using announce_passes [OF assms, of ?line ?prog tr]
    by (cases "announce w progress_cb ?line ?prog tr") simp
  show ?case
    using a Cons.IH
    by (cases "scrape_url w (count_ev is_Scrape_url tr1) ?url") (simp_all add: Let_def)
qed

lemma research_scrape_passes:
  assumes "\<forall>cb k m. progress_cb = Some cb \<longrightarrow> \<not> raises (cb k m)"
    and "\<forall>k m. \<not> raises (print_out w k m)"
  shows "fst (research_scrape w progress_cb depth results tr) = None"
proof -
  let ?msg = "''Scraping '' @ str_nat (length results) @ '' sources...''"
  obtain tr1 where a: "announce w progress_cb (icon_scraping @ '' '' @ ?msg) ?msg tr = (None, tr1)"
    using announce_passes [OF assms, of "icon_scraping @ '' '' @ ?msg" ?msg tr]
    by (cases "announce w progress_cb (icon_scraping @ '' '' @ ?msg) ?msg tr") simp
  show ?thesis
    using a scrape_sources_passes [OF assms, of "length results" 1 results "[]" tr1]
    by (simp add: research_scrape_def Let_def)
qed

text \<open>
  The part of research after the search appends the dict it returns, and appends
  nothing when it raises.
\<close>

lemma research_page_cases:
  "(\<exists>data tr1.
      research_page w progress_cb query depth page per_page all_results (ag, tr)
        = (Inr data, ag\<lparr>research_history := research_history ag @ [data]\<rparr>, tr1)
    \<and> (rd_search_results data = [] \<longrightarrow>
          rd_error data = Some ''No search results found''
        \<and> rd_sources data = [] \<and> rd_analysis data = None \<and> tr1 = tr)
    \<and> (rd_search_results data \<noteq> [] \<longrightarrow> rd_error data = None))
   \<or> (\<exists>e tr1. research_page w progress_cb query depth page per_page all_results (ag, tr)
                 = (Inl e, ag, tr1))"
proof (cases "page_results all_results page per_page = []")
  case True
  then show ?thesis by (simp add: research_page_def Let_def)
next
  case False
  let ?results = "page_results all_results page per_page"
  obtain x sources tr1 where sc: "research_scrape w progress_cb depth ?results tr = (x, sources, tr1)"
    by (cases "research_scrape w progress_cb depth ?results tr")
  show ?thesis
  proof (cases x)
    case (Some e)
    then show ?thesis using False sc by (simp add: research_page_def Let_def)
  next
    case None
    let ?line = "icon_analyzing @ '' Analyzing with '' @ ai_backend ag @ ''...''"
    let ?msg = "''Analyzing with '' @ ai_backend ag @ ''...''"
    obtain y tr2 where an: "announce w progress_cb ?line ?msg tr1 = (y, tr2)"
      by (cases "announce w progress_cb ?line ?msg tr1")
    show ?thesis using False sc None an
      by (cases y) (simp_all add: research_page_def Let_def)
  qed
qed

lemma research_page_passes:
  assumes "\<forall>cb k m. progress_cb = Some cb \<longrightarrow> \<not> raises (cb k m)"
    and "\<forall>k m. \<not> raises (print_out w k m)"
  shows "\<exists>data ag1 tr1.
           research_page w progress_cb query depth page per_page all_results (ag, tr)
             = (Inr data, ag1, tr1)"
proof (cases "page_results all_results page per_page = []")
  case True
  then show ?thesis by (simp add: research_page_def Let_def)
next
  case False
  let ?results = "page_results all_results page per_page"
  obtain sources tr1 where sc:
    "research_scrape w progress_cb depth ?results tr = (None, sources, tr1)"
    using research_scrape_passes [OF assms, of depth ?results tr]
    by (cases "research_scrape w progress_cb depth ?results tr") auto
  let ?line = "icon_analyzing @ '' Analyzing with '' @ ai_backend ag @ ''...''"
  let ?msg = "''Analyzing with '' @ ai_backend ag @ ''...''"
  obtain tr2 where an: "announce w progress_cb ?line ?msg tr1 = (None, tr2)"
    using announce_passes [OF assms, of ?line ?msg tr1]
    by (cases "announce w progress_cb ?line ?msg tr1") simp
  show ?thesis using False sc an by (simp add: research_page_def Let_def)
qed


lemma research_cases:
  "(\<exists>data ag1 tr1.
      research w query depth max_sources news page per_page progress_cb (ag, tr)
        = (Inr data, ag1, tr1)
    \<and> research_history ag1 = research_history ag @ [data]
    \<and> (rd_search_results data = [] \<longrightarrow>
          rd_error data = Some ''No search results found''
        \<and> rd_sources data = [] \<and> rd_analysis data = None
        \<and> count_ev is_Scrape_url tr1 = count_ev is_Scrape_url tr
        \<and> count_ev is_Analyze_with_ai tr1 = count_ev is_Analyze_with_ai tr)
    \<and> (rd_search_results data \<noteq> [] \<longrightarrow> rd_error data = None))
   \<or> (\<exists>e ag1 tr1.
        research w query depth max_sources news page per_page progress_cb (ag, tr)
          = (Inl e, ag1, tr1)
      \<and> research_history ag1 = research_history ag)"
proof -
  let ?pp = "resolve_per_page per_page max_sources"
  let ?pg = "max 0 page"
  let ?n = "fetch_n ?pg ?pp"
  let ?line1 = "CHR 0x0A # icon_researching @ '' Researching: '' @ query"
  let ?msg1 = "''Researching: '' @ query"
  let ?msg2 = "if news then ''Searching the news...'' else ''Searching the web...''"
  let ?line2 = "icon_searching @ '' '' @ ?msg2"
  obtain x1 tr1 where a1: "announce w progress_cb ?line1 ?msg1 tr = (x1, tr1)"
    by (cases "announce w progress_cb ?line1 ?msg1 tr")
  show ?thesis
  proof (cases x1)
    case (Some e)
    then show ?thesis using a1 by (simp add: research_def)
  next
    case n1: None
    obtain x2 tr2 where a2: "announce w progress_cb ?line2 ?msg2 tr1 = (x2, tr2)"
      by (cases "announce w progress_cb ?line2 ?msg2 tr1")
    show ?thesis
    proof (cases x2)
      case (Some e)
      then show ?thesis using a1 n1 a2 by (simp add: research_def Let_def)
    next
      case n2: None
      let ?call = "if news then news_search w query ?n (search_engine ag, tr2)
                   else search w query ?n (search_engine ag, tr2)"
      obtain r se1 tr3 where call: "?call = (r, se1, tr3)"
        by (cases ?call)
      have scr: "count_ev is_Scrape_url tr3 = count_ev is_Scrape_url tr"
        using call a1 a2
          announce_count [of is_Scrape_url w progress_cb ?line1 ?msg1 tr]
          announce_count [of is_Scrape_url w progress_cb ?line2 ?msg2 tr1]
          search_count [of is_Scrape_url w query ?n "search_engine ag" tr2]
          news_search_count [of is_Scrape_url w query ?n "search_engine ag" tr2]
        by (cases news) simp_all
      have ana: "count_ev is_Analyze_with_ai tr3 = count_ev is_Analyze_with_ai tr"
        using call a1 a2
          announce_count [of is_Analyze_with_ai w progress_cb ?line1 ?msg1 tr]
          announce_count [of is_Analyze_with_ai w progress_cb ?line2 ?msg2 tr1]
          search_count [of is_Analyze_with_ai w query ?n "search_engine ag" tr2]
          news_search_count [of is_Analyze_with_ai w query ?n "search_engine ag" tr2]
        by (cases news) simp_all
      show ?thesis
      proof (cases r)
        case (Inl e)
        have "research w query depth max_sources news page per_page progress_cb (ag, tr)
                = (Inl e, ag\<lparr>search_engine := se1\<rparr>, tr3)"
          using a1 n1 a2 n2 call Inl by (simp add: research_def Let_def)
        then show ?thesis by simp
      next
        case (Inr all_results)
        let ?ag = "ag\<lparr>search_engine := se1\<rparr>"
        have eq: "research w query depth max_sources news page per_page progress_cb (ag, tr)
                = research_page w progress_cb query depth ?pg ?pp all_results (?ag, tr3)"
          using a1 n1 a2 n2 call Inr by (simp add: research_def Let_def)
        from research_page_cases [of w progress_cb query depth ?pg ?pp all_results ?ag tr3]
        show ?thesis
        proof
          assume "\<exists>data tr1.
            research_page w progress_cb query depth ?pg ?pp all_results (?ag, tr3)
              = (Inr data, ?ag\<lparr>research_history := research_history ?ag @ [data]\<rparr>, tr1)
            \<and> (rd_search_results data = [] \<longrightarrow>
                  rd_error data = Some ''No search results found''
                \<and> rd_sources data = [] \<and> rd_analysis data = None \<and> tr1 = tr3)
            \<and> (rd_search_results data \<noteq> [] \<longrightarrow> rd_error data = None)"
          then obtain data tr4 where
            p: "research_page w progress_cb query depth ?pg ?pp all_results (?ag, tr3)
              = (Inr data, ?ag\<lparr>research_history := research_history ?ag @ [data]\<rparr>, tr4)"
            and em: "rd_search_results data = [] \<longrightarrow>
                  rd_error data = Some ''No search results found''
                \<and> rd_sources data = [] \<and> rd_analysis data = None \<and> tr4 = tr3"
            and ne: "rd_search_results data \<noteq> [] \<longrightarrow> rd_error data = None"
            by blast
          have "research w query depth max_sources news page per_page progress_cb (ag, tr)
                  = (Inr data, ?ag\<lparr>research_history := research_history ?ag @ [data]\<rparr>, tr4)
            \<and> research_history (?ag\<lparr>research_history := research_history ?ag @ [data]\<rparr>)
                = research_history ag @ [data]
            \<and> (rd_search_results data = [] \<longrightarrow>
                  rd_error data = Some ''No search results found''
                \<and> rd_sources data = [] \<and> rd_analysis data = None
                \<and> count_ev is_Scrape_url tr4 = count_ev is_Scrape_url tr
                \<and> count_ev is_Analyze_with_ai tr4 = count_ev is_Analyze_with_ai tr)
            \<and> (rd_search_results data \<noteq> [] \<longrightarrow> rd_error data = None)"
            using eq p em ne scr ana by auto
          then show ?thesis by blast
        next
          assume "\<exists>e tr1. research_page w progress_cb query depth ?pg ?pp all_results (?ag, tr3)
                    = (Inl e, ?ag, tr1)"
          then obtain e tr4 where
            "research w query depth max_sources news page per_page progress_cb (ag, tr)
               = (Inl e, ?ag, tr4)"
            using eq by auto
          then show ?thesis by simp
        qed
      qed
    qed
  qed
qed

lemma research_passes:
  assumes "\<forall>cb k m. progress_cb = Some cb \<longrightarrow> \<not> raises (cb k m)"
    and "\<forall>k m. \<not> raises (print_out w k m)"
    and "\<forall>k q s n. requests_get w k q s n \<noteq> Raises (HTTPError None)"
  shows "\<exists>data ag1 tr1.
           research w query depth max_sources news page per_page progress_cb (ag, tr)
             = (Inr data, ag1, tr1)"
proof -
  let ?pp = "resolve_per_page per_page max_sources"
  let ?pg = "max 0 page"
  let ?n = "fetch_n ?pg ?pp"
  let ?line1 = "CHR 0x0A # icon_researching @ '' Researching: '' @ query"
  let ?msg1 = "''Researching: '' @ query"
  let ?msg2 = "if news then ''Searching the news...'' else ''Searching the web...''"
  let ?line2 = "icon_searching @ '' '' @ ?msg2"
  obtain tr1 where a1: "announce w progress_cb ?line1 ?msg1 tr = (None, tr1)"
    using announce_passes [OF assms(1,2), of ?line1 ?msg1 tr]
    by (cases "announce w progress_cb ?line1 ?msg1 tr") simp
  obtain tr2 where a2: "announce w progress_cb ?line2 ?msg2 tr1 = (None, tr2)"
    using announce_passes [OF assms(1,2), of ?line2 ?msg2 tr1]
    by (cases "announce w progress_cb ?line2 ?msg2 tr1") simp
  let ?call = "if news then news_search w query ?n (search_engine ag, tr2)
               else search w query ?n (search_engine ag, tr2)"
  obtain all_results se1 tr3 where call: "?call = (Inr all_results, se1, tr3)"
    using search_result [OF assms(3), of query ?n "search_engine ag" tr2]
      news_search_result [of w query ?n "search_engine ag" tr2]
    by (cases news) auto
  have "research w query depth max_sources news page per_page progress_cb (ag, tr)
          = research_page w progress_cb query depth ?pg ?pp all_results
              (ag\<lparr>search_engine := se1\<rparr>, tr3)"
    using a1 a2 call by (simp add: research_def Let_def)
  then show ?thesis
    using research_page_passes [OF assms(1,2), of query depth ?pg ?pp all_results
        "ag\<lparr>search_engine := se1\<rparr>" tr3]
    by simp
qed

lemma str_nat_digit: "n < 10 \<Longrightarrow> str_nat n = [''0123456789'' ! n]"
  by (subst str_nat.simps) simp

section \<open>Properties\<close>

text \<open>
  C7.  For every attempt at least 0 and every jitter between -0.5 and +0.5 the backoff
  delay is max(1, min(16, 2^attempt) + jitter), and it lies between 1 and 16.5 seconds.
\<close>

theorem C7_sleep_time_bounds:
  assumes "0 \<le> attempt" and "- (1/2) \<le> jitter" and "jitter \<le> 1/2"
  shows "sleep_time attempt jitter = max 1 (min 16 (2 ^ nat attempt) + jitter)
         \<and> 1 \<le> sleep_time attempt jitter \<and> sleep_time attempt jitter \<le> 16 + 1/2"
proof -
  define b :: real where "b = min 16 (2 ^ nat attempt)"
  have b: "b \<le> 16" by (simp add: b_def)
  have eq: "sleep_time attempt jitter = max 1 (b + jitter)"
    using assms(1) by (simp add: sleep_time_def b_def)
  have "max 1 (b + jitter) \<le> 16 + 1/2" using b assms(3) by (simp add: max_def)
  moreover have "1 \<le> max 1 (b + jitter)" by simp
  ultimately show ?thesis using eq by (simp add: b_def)
qed

theorem C7_sleep_time_bounds_witness:
  "(0::int) \<le> 3 \<and> - (1/2) \<le> (1/4::real) \<and> (1/4::real) \<le> 1/2
   \<and> sleep_time 3 (1/4) = 33/4 \<and> 1 \<le> sleep_time 3 (1/4) \<and> sleep_time 3 (1/4) \<le> 16 + 1/2"
  using C7_sleep_time_bounds [of 3 "1/4"] by (simp add: sleep_time_def)

text \<open>
  C4.  For every flat result list, every page at least 0 and every page size above 0,
  with start = page * perPage, the page slice has min(perPage, max(0, len(all) - start))
  records, hence at most perPage, and the has-more flag is len(all) > start + perPage.
\<close>

theorem C4_pagination:
  assumes "0 \<le> page" and "0 < per_page"
  shows "int (length (page_results all_results page per_page))
           = min per_page (max 0 (int (length all_results) - page * per_page))
       \<and> int (length (page_results all_results page per_page)) \<le> per_page
       \<and> has_more all_results page per_page
           = (int (length all_results) > page * per_page + per_page)"
proof -
  define start where "start = page * per_page"
  have s0: "0 \<le> start" using assms by (simp add: start_def)
  have mx: "max 0 page = page" using assms(1) by simp
  have len: "int (length (page_results all_results page per_page))
           = min per_page (max 0 (int (length all_results) - start))"
    using s0 assms(2)
    by (auto simp: page_results_def py_slice_def Let_def mx start_def[symmetric])
  have hm: "has_more all_results page per_page = (int (length all_results) > start + per_page)"
    using s0 assms(2) by (auto simp: has_more_def Let_def mx start_def[symmetric])
  show ?thesis using len hm by (simp add: start_def)
qed

theorem C4_pagination_witness:
  "(0::int) \<le> 2 \<and> (0::int) < 3
   \<and> page_results [1, 2, 3, 4, 5, 6, 7, 8, 9 :: nat] 2 3 = [7, 8, 9]
   \<and> int (length (page_results [1, 2, 3, 4, 5, 6, 7, 8, 9 :: nat] 2 3)) = 3
   \<and> \<not> has_more [1, 2, 3, 4, 5, 6, 7, 8, 9 :: nat] 2 3"
  using C4_pagination [of 2 3 "[1, 2, 3, 4, 5, 6, 7, 8, 9 :: nat]"]
  by (simp add: page_results_def py_slice_def)

text \<open>
  C2.  In fallback mode (preferred engine 'duckduckgo') the orchestrator never invokes
  the primary client, whatever the credentials are: the search is the fallback
  client's search alone, and the trace gains no entry of the primary client and no
  HTTP request.
\<close>

theorem C2_fallback_mode:
  assumes "preferred_engine se = ''duckduckgo''"
  shows "search w query max_results (se, tr)
           = search_duckduckgo w query max_results (se, tr @ [Call_search query max_results])
       \<and> count_ev is_Call_search_google (snd (snd (search w query max_results (se, tr))))
           = count_ev is_Call_search_google tr
       \<and> count_ev is_Requests_get (snd (snd (search w query max_results (se, tr))))
           = count_ev is_Requests_get tr"
proof -
  let ?tr = "tr @ [Call_search query max_results]"
  have eq: "search w query max_results (se, tr) = search_duckduckgo w query max_results (se, ?tr)"
    using assms by (simp add: search.simps Let_def)
  have "count_ev is_Call_search_google (snd (snd (search_duckduckgo w query max_results (se, ?tr))))
          = count_ev is_Call_search_google ?tr"
    by (simp add: search_duckduckgo_count)
  moreover have "count_ev is_Requests_get (snd (snd (search_duckduckgo w query max_results (se, ?tr))))
          = count_ev is_Requests_get ?tr"
    by (simp add: search_duckduckgo_count)
  ultimately show ?thesis using eq by simp
qed

theorem C2_fallback_mode_witness:
  "preferred_engine (SearchEngine_init (Some ''key'') (Some ''cx'') ''DuckDuckGo'') = ''duckduckgo''
   \<and> fst (search (env_of (\<lambda>k. three_hits) (\<lambda>k. ratelimited) (\<lambda>k. Returns (Some [item ''g''])))
             ''ai'' 5 (SearchEngine_init (Some ''key'') (Some ''cx'') ''DuckDuckGo'', []))
       = Inr (map text_record [hit ''a'', hit ''b'', hit ''c''])
   \<and> count_ev is_Requests_get
        (snd (snd (search (env_of (\<lambda>k. three_hits) (\<lambda>k. ratelimited) (\<lambda>k. Returns (Some [item ''g''])))
             ''ai'' 5 (SearchEngine_init (Some ''key'') (Some ''cx'') ''DuckDuckGo'', [])))) = 0"
  using C2_fallback_mode [of "SearchEngine_init (Some ''key'') (Some ''cx'') ''DuckDuckGo''"
      "env_of (\<lambda>k. three_hits) (\<lambda>k. ratelimited) (\<lambda>k. Returns (Some [item ''g'']))" "''ai''" 5 "[]"]
  by (simp add: eval_defs)

text \<open>
  C1.  In auto mode with both credentials configured the orchestrator calls the primary
  client first; a non-empty result of the primary client is returned and the fallback
  client is not invoked; on an empty result the fallback client is invoked exactly once
  and its result is returned.  Without configured credentials the fallback client is
  invoked directly and the primary client is not called.
\<close>

theorem C1_auto_mode:
  assumes "preferred_engine se = ''auto''"
  shows "(truthy (google_api_key se) \<and> truthy (google_cse_id se) \<longrightarrow>
            (\<exists>r evs.
               search_google w query max_results (se, tr @ [Call_search query max_results])
                 = (r, se,
                    tr @ Call_search query max_results # Call_search_google query max_results # evs)
             \<and> count_ev is_Call_search_duckduckgo evs = 0 \<and> count_ev is_Ddgs_text evs = 0
             \<and> ((\<forall>k q s n. requests_get w k q s n \<noteq> Raises (HTTPError None))
                  \<longrightarrow> (\<exists>g. r = Inr g))
             \<and> (\<forall>g. r = Inr g \<and> g \<noteq> [] \<longrightarrow>
                  search w query max_results (se, tr)
                    = (Inr g, se,
                       tr @ Call_search query max_results # Call_search_google query max_results # evs))
             \<and> (r = Inr [] \<longrightarrow>
                  search w query max_results (se, tr)
                    = search_duckduckgo w query max_results
                        (se, tr @ Call_search query max_results
                               # Call_search_google query max_results # evs)
                  \<and> count_ev is_Call_search_duckduckgo (snd (snd (search w query max_results (se, tr))))
                      = count_ev is_Call_search_duckduckgo tr + 1)))
       \<and> (\<not> (truthy (google_api_key se) \<and> truthy (google_cse_id se)) \<longrightarrow>
            search w query max_results (se, tr)
              = search_duckduckgo w query max_results (se, tr @ [Call_search query max_results])
          \<and> count_ev is_Call_search_google (snd (snd (search w query max_results (se, tr))))
              = count_ev is_Call_search_google tr
          \<and> count_ev is_Requests_get (snd (snd (search w query max_results (se, tr))))
              = count_ev is_Requests_get tr
          \<and> count_ev is_Call_search_duckduckgo (snd (snd (search w query max_results (se, tr))))
              = count_ev is_Call_search_duckduckgo tr + 1)"
proof (rule conjI; rule impI)
  assume cfg: "truthy (google_api_key se) \<and> truthy (google_cse_id se)"
  let ?tr = "tr @ [Call_search query max_results]"
  obtain r evs where g: "search_google w query max_results (se, ?tr)
        = (r, se, ?tr @ Call_search_google query max_results # evs)"
    and c1: "count_ev is_Call_search_duckduckgo evs = 0" and c2: "count_ev is_Ddgs_text evs = 0"
    using search_google_events [of w query max_results se ?tr] by blast
  let ?tr1 = "tr @ Call_search query max_results # Call_search_google query max_results # evs"
  have g': "search_google w query max_results (se, ?tr) = (r, se, ?tr1)" using g by simp
  have ok: "(\<forall>k q s n. requests_get w k q s n \<noteq> Raises (HTTPError None)) \<longrightarrow> (\<exists>g. r = Inr g)"
    using search_google_result [of w query max_results se ?tr] g' by auto
  have s: "search w query max_results (se, tr) = google_then_duckduckgo w query max_results (se, ?tr)"
    using assms cfg by (simp add: search.simps Let_def)
  have ne: "\<forall>g. r = Inr g \<and> g \<noteq> [] \<longrightarrow> search w query max_results (se, tr) = (Inr g, se, ?tr1)"
    using s g' by (simp add: google_then_duckduckgo_def)
  have em: "r = Inr [] \<longrightarrow> search w query max_results (se, tr)
              = search_duckduckgo w query max_results (se, ?tr1)"
    using s g' by (simp add: google_then_duckduckgo_def)
  have cnt: "count_ev is_Call_search_duckduckgo
               (snd (snd (search_duckduckgo w query max_results (se, ?tr1))))
             = count_ev is_Call_search_duckduckgo tr + 1"
    using c1 by (simp add: search_duckduckgo_count)
  show "\<exists>r evs.
               search_google w query max_results (se, tr @ [Call_search query max_results])
                 = (r, se,
                    tr @ Call_search query max_results # Call_search_google query max_results # evs)
             \<and> count_ev is_Call_search_duckduckgo evs = 0 \<and> count_ev is_Ddgs_text evs = 0
             \<and> ((\<forall>k q s n. requests_get w k q s n \<noteq> Raises (HTTPError None))
                  \<longrightarrow> (\<exists>g. r = Inr g))
             \<and> (\<forall>g. r = Inr g \<and> g \<noteq> [] \<longrightarrow>
                  search w query max_results (se, tr)
                    = (Inr g, se,
                       tr @ Call_search query max_results # Call_search_google query max_results # evs))
             \<and> (r = Inr [] \<longrightarrow>
                  search w query max_results (se, tr)
                    = search_duckduckgo w query max_results
                        (se, tr @ Call_search query max_results
                               # Call_search_google query max_results # evs)
                  \<and> count_ev is_Call_search_duckduckgo (snd (snd (search w query max_results (se, tr))))
                      = count_ev is_Call_search_duckduckgo tr + 1)"
    using g' c1 c2 ok ne em cnt by (intro exI [of _ r] exI [of _ evs]) simp
next
  assume ncfg: "\<not> (truthy (google_api_key se) \<and> truthy (google_cse_id se))"
  let ?tr = "tr @ [Call_search query max_results]"
  have s: "search w query max_results (se, tr) = search_duckduckgo w query max_results (se, ?tr)"
    using assms ncfg by (auto simp: search.simps Let_def)
  have "count_ev is_Call_search_google (snd (snd (search_duckduckgo w query max_results (se, ?tr))))
          = count_ev is_Call_search_google tr"
    by (simp add: search_duckduckgo_count)
  moreover have "count_ev is_Requests_get (snd (snd (search_duckduckgo w query max_results (se, ?tr))))
          = count_ev is_Requests_get tr"
    by (simp add: search_duckduckgo_count)
  moreover have "count_ev is_Call_search_duckduckgo
         (snd (snd (search_duckduckgo w query max_results (se, ?tr))))
          = count_ev is_Call_search_duckduckgo tr + 1"
    by (simp add: search_duckduckgo_count)
  ultimately show "search w query max_results (se, tr)
              = search_duckduckgo w query max_results (se, tr @ [Call_search query max_results])
          \<and> count_ev is_Call_search_google (snd (snd (search w query max_results (se, tr))))
              = count_ev is_Call_search_google tr
          \<and> count_ev is_Requests_get (snd (snd (search w query max_results (se, tr))))
              = count_ev is_Requests_get tr
          \<and> count_ev is_Call_search_duckduckgo (snd (snd (search w query max_results (se, tr))))
              = count_ev is_Call_search_duckduckgo tr + 1"
    using s by simp
qed


theorem C1_auto_mode_witness:
  "preferred_engine (SearchEngine_init (Some ''key'') (Some ''cx'') ''auto'') = ''auto''
   \<and> truthy (Some ''key'') \<and> \<not> truthy None
   \<and> search (env_of (\<lambda>k. three_hits) (\<lambda>k. ratelimited) (\<lambda>k. Returns (Some [item ''g''])))
        ''ai'' 5 (SearchEngine_init (Some ''key'') (Some ''cx'') ''auto'', [])
       = (Inr [google_record (item ''g'')],
          SearchEngine_init (Some ''key'') (Some ''cx'') ''auto'',
          [Call_search ''ai'' 5, Call_search_google ''ai'' 5, Requests_get ''ai'' 1 5])
   \<and> search (env_of (\<lambda>k. three_hits) (\<lambda>k. ratelimited) (\<lambda>k. Raises (HTTPError (Some 429))))
        ''ai'' 5 (SearchEngine_init (Some ''key'') (Some ''cx'') ''auto'', [])
       = (Inr (map text_record [hit ''a'', hit ''b'', hit ''c'']),
          SearchEngine_init (Some ''key'') (Some ''cx'') ''auto'',
          [Call_search ''ai'' 5, Call_search_google ''ai'' 5, Requests_get ''ai'' 1 5,
           Call_search_duckduckgo ''ai'' 5, Ddgs_text ''ai'' 5 ''api''])
   \<and> search (env_of (\<lambda>k. three_hits) (\<lambda>k. ratelimited) (\<lambda>k. Returns (Some [item ''g''])))
        ''ai'' 5 (SearchEngine_init None None ''auto'', [])
       = (Inr (map text_record [hit ''a'', hit ''b'', hit ''c'']),
          SearchEngine_init None None ''auto'',
          [Call_search ''ai'' 5, Call_search_duckduckgo ''ai'' 5, Ddgs_text ''ai'' 5 ''api''])"
  using
    C1_auto_mode [of "SearchEngine_init (Some ''key'') (Some ''cx'') ''auto''"
      "env_of (\<lambda>k. three_hits) (\<lambda>k. ratelimited) (\<lambda>k. Returns (Some [item ''g'']))" "''ai''" 5 "[]"]
    C1_auto_mode [of "SearchEngine_init (Some ''key'') (Some ''cx'') ''auto''"
      "env_of (\<lambda>k. three_hits) (\<lambda>k. ratelimited) (\<lambda>k. Raises (HTTPError (Some 429)))" "''ai''" 5 "[]"]
    C1_auto_mode [of "SearchEngine_init None None ''auto''"
      "env_of (\<lambda>k. three_hits) (\<lambda>k. ratelimited) (\<lambda>k. Returns (Some [item ''g'']))" "''ai''" 5 "[]"]
  by (simp add: eval_defs)

text \<open>
  C3.  The fallback client makes at most five attempts.  An attempt whose call returns
  ends the fetch at once with the normalised records.  A rate-limit failure with an
  attempt left moves the backend index to the next rotation slot, builds a new client,
  sleeps for the backoff time of this attempt and goes on with the next attempt; any
  other failure with an attempt left builds a new client, sleeps one second and goes on
  with the same backend.  When all five attempts fail the result is the empty list.
  The scenario of the specification (a rate-limit failure on attempt 0, three hits on
  attempt 1) is the example that follows the theorem.
\<close>

theorem C3_fallback_retry:
  "count_ev is_Ddgs_text (snd (snd (search_duckduckgo w query max_results (se, tr))))
     \<le> count_ev is_Ddgs_text tr + 5
   \<and> search_duckduckgo w query max_results (se, tr)
       = (case ddg_attempts w query (max 1 (min max_results 20)) 5 0
                 (se, tr @ [Call_search_duckduckgo query max_results]) of
            (Some results, st) \<Rightarrow> (Inr results, st)
          | (None, st) \<Rightarrow> (Inr [], st))
   \<and> (ddgs_text w (count_ev is_Ddgs_text tr) query m (current_backend se) = Returns raw \<longrightarrow>
        ddg_attempts w query m (Suc left) attempt (se, tr)
          = (Some (map text_record (or_empty raw)), se,
             tr @ [Ddgs_text query m (current_backend se)]))
   \<and> (ddgs_text w (count_ev is_Ddgs_text tr) query m (current_backend se)
          = Raises (DuckDuckGoSearchException msg) \<and> is_ratelimit msg \<and> attempt < 4 \<longrightarrow>
        ddg_attempts w query m (Suc left) attempt (se, tr)
          = ddg_attempts w query m left (attempt + 1)
              (se\<lparr>backend_idx := (backend_idx se + 1) mod 3, ddgs := Suc (ddgs se)\<rparr>,
               tr @ [Ddgs_text query m (current_backend se), Make_ddgs,
                     Call_retry_backoff attempt, Random_uniform,
                     Sleep (sleep_time attempt
                              (random_uniform w (count_ev is_Random_uniform tr)))]))
   \<and> (ddgs_text w (count_ev is_Ddgs_text tr) query m (current_backend se) = Raises e
        \<and> (\<forall>msg. e = DuckDuckGoSearchException msg \<longrightarrow> \<not> is_ratelimit msg) \<and> attempt < 4 \<longrightarrow>
        ddg_attempts w query m (Suc left) attempt (se, tr)
          = ddg_attempts w query m left (attempt + 1)
              (se\<lparr>ddgs := Suc (ddgs se)\<rparr>,
               tr @ [Ddgs_text query m (current_backend se), Make_ddgs, Sleep 1]))
   \<and> ((\<forall>j<5. \<forall>b. raises (ddgs_text w (count_ev is_Ddgs_text tr + j) query
                             (max 1 (min max_results 20)) b)) \<longrightarrow>
        fst (search_duckduckgo w query max_results (se, tr)) = Inr []
        \<and> count_ev is_Ddgs_text (snd (snd (search_duckduckgo w query max_results (se, tr))))
            = count_ev is_Ddgs_text tr + 5)"
proof -
  have unfold: "search_duckduckgo w query max_results (se, tr)
       = (case ddg_attempts w query (max 1 (min max_results 20)) 5 0
                 (se, tr @ [Call_search_duckduckgo query max_results]) of
            (Some results, st) \<Rightarrow> (Inr results, st)
          | (None, st) \<Rightarrow> (Inr [], st))"
    by (simp add: search_duckduckgo.simps Let_def)
  show ?thesis
    using search_duckduckgo_text_count_le [of w query max_results se tr] unfold
      ddg_attempts_returns [of w tr query m se raw left attempt]
      ddg_attempts_ratelimit [of w tr query m se msg attempt left]
      ddg_attempts_other_failure [of w tr query m se e attempt left]
      search_duckduckgo_exhausted [of w tr query max_results se]
    by blast
qed

theorem C3_fallback_retry_witness:
  "search env_ratelimit_once ''ai'' 5 (SearchEngine_init None None ''auto'', [])
     = (Inr (map text_record [hit ''a'', hit ''b'', hit ''c'']),
        (SearchEngine_init None None ''auto'')\<lparr>backend_idx := 1, ddgs := 1\<rparr>,
        [Call_search ''ai'' 5, Call_search_duckduckgo ''ai'' 5, Ddgs_text ''ai'' 5 ''api'',
         Make_ddgs, Call_retry_backoff 0, Random_uniform, Sleep 1,
         Ddgs_text ''ai'' 5 ''html''])
   \<and> length (map text_record [hit ''a'', hit ''b'', hit ''c'']) = 3
   \<and> count_ev is_Call_retry_backoff
        (snd (snd (search env_ratelimit_once ''ai'' 5 (SearchEngine_init None None ''auto'', []))))
       = 1
   \<and> search_duckduckgo env_timeout_once ''ai'' 5 (SearchEngine_init None None ''auto'', [])
     = (Inr (map text_record [hit ''a'', hit ''b'', hit ''c'']),
        (SearchEngine_init None None ''auto'')\<lparr>ddgs := 1\<rparr>,
        [Call_search_duckduckgo ''ai'' 5, Ddgs_text ''ai'' 5 ''api'', Make_ddgs, Sleep 1,
         Ddgs_text ''ai'' 5 ''api''])
   \<and> fst (search_duckduckgo env_down ''ai'' 5 (SearchEngine_init None None ''auto'', [])) = Inr []
   \<and> count_ev is_Ddgs_text
        (snd (snd (search_duckduckgo env_down ''ai'' 5 (SearchEngine_init None None ''auto'', []))))
       = 5"
  using
    C3_fallback_retry [where w = env_ratelimit_once and query = "''ai''" and max_results = 5
      and se = "SearchEngine_init None None ''auto''"
      and tr = "[Call_search ''ai'' 5, Call_search_duckduckgo ''ai'' 5]"
      and m = 5 and left = 4 and attempt = 0 and msg = "''202 Ratelimit''"]
    C3_fallback_retry [where w = env_timeout_once and query = "''ai''" and max_results = 5
      and se = "SearchEngine_init None None ''auto''"
      and tr = "[Call_search_duckduckgo ''ai'' 5]"
      and m = 5 and left = 4 and attempt = 0 and e = "OtherException ''timed out''"]
    C3_fallback_retry [where w = env_down and query = "''ai''" and max_results = 5
      and se = "SearchEngine_init None None ''auto''" and tr = "[]"]
  by (simp add: env_ratelimit_once_def env_timeout_once_def env_down_def eval_defs)

text \<open>
  C8.  When all five attempts of the news fetch fail, \<^verbatim>\<open>news_search\<close> does not fail:
  after the five calls it runs the generic search with the query followed by " news"
  (and the clamped number of results), from the state the attempts left, and returns
  whatever that search returns; an exception of that search is caught and gives the
  empty list.
\<close>

theorem C8_news_falls_back_to_search:
  assumes "\<forall>j<5. raises (ddgs_news w (count_ev is_Ddgs_news tr + j) query
                          (max 1 (min max_results 20)))"
  shows "\<exists>se1 tr1.
           news_attempts w query (max 1 (min max_results 20)) 5 0 (se, tr) = (None, se1, tr1)
         \<and> count_ev is_Ddgs_news tr1 = count_ev is_Ddgs_news tr + 5
         \<and> (\<forall>generic st.
               search w (query @ '' news'') (max 1 (min max_results 20)) (se1, tr1)
                 = (Inr generic, st)
               \<longrightarrow> news_search w query max_results (se, tr) = (Inr generic, st))
         \<and> (\<forall>e st.
               search w (query @ '' news'') (max 1 (min max_results 20)) (se1, tr1) = (Inl e, st)
               \<longrightarrow> news_search w query max_results (se, tr) = (Inr [], st))
         \<and> ((\<forall>k q s n. requests_get w k q s n \<noteq> Raises (HTTPError None))
               \<longrightarrow> news_search w query max_results (se, tr)
                     = search w (query @ '' news'') (max 1 (min max_results 20)) (se1, tr1))"
proof -
  let ?m = "max 1 (min max_results 20)"
  obtain r se1 tr1 where run: "news_attempts w query ?m 5 0 (se, tr) = (r, se1, tr1)"
    by (cases "news_attempts w query ?m 5 0 (se, tr)")
  from news_attempts_exhausted [OF assms, of 0 se] run
  have r: "r = None" and c: "count_ev is_Ddgs_news tr1 = count_ev is_Ddgs_news tr + 5"
    by simp_all
  have a: "\<forall>generic st. search w (query @ '' news'') ?m (se1, tr1) = (Inr generic, st)
             \<longrightarrow> news_search w query max_results (se, tr) = (Inr generic, st)"
    using run r by (simp add: news_search.simps Let_def)
  have b: "\<forall>e st. search w (query @ '' news'') ?m (se1, tr1) = (Inl e, st)
             \<longrightarrow> news_search w query max_results (se, tr) = (Inr [], st)"
    using run r by (simp add: news_search.simps Let_def)
  have d: "(\<forall>k q s n. requests_get w k q s n \<noteq> Raises (HTTPError None))
             \<longrightarrow> news_search w query max_results (se, tr)
                   = search w (query @ '' news'') ?m (se1, tr1)"
  proof
    assume h: "\<forall>k q s n. requests_get w k q s n \<noteq> Raises (HTTPError None)"
    obtain g se2 tr2 where g: "search w (query @ '' news'') ?m (se1, tr1) = (Inr g, se2, tr2)"
      using search_result [OF h] by blast
    then show "news_search w query max_results (se, tr)
                 = search w (query @ '' news'') ?m (se1, tr1)"
      using a by simp
  qed
  show ?thesis using run r c a b d by blast
qed

theorem C8_news_falls_back_to_search_witness:
  "news_search env_news_down ''ai'' 50 (SearchEngine_init None None ''auto'', [])
     = (Inr (map text_record [hit ''a'', hit ''b'', hit ''c'']),
        (SearchEngine_init None None ''auto'')\<lparr>ddgs := 6\<rparr>,
        [Ddgs_news ''ai'' 20, Make_ddgs, Call_retry_backoff 0, Random_uniform, Sleep 1,
         Ddgs_news ''ai'' 20, Make_ddgs, Call_retry_backoff 1, Random_uniform, Sleep 2,
         Ddgs_news ''ai'' 20, Make_ddgs, Call_retry_backoff 2, Random_uniform, Sleep 4,
         Ddgs_news ''ai'' 20, Make_ddgs, Call_retry_backoff 3, Random_uniform, Sleep 8,
         Ddgs_news ''ai'' 20, Make_ddgs, Make_ddgs,
         Call_search ''ai news'' 20, Call_search_duckduckgo ''ai news'' 20,
         Ddgs_text ''ai news'' 20 ''api''])"
  using C8_news_falls_back_to_search [where w = env_news_down and tr = "[]" and query = "''ai''"
      and max_results = 50 and se = "SearchEngine_init None None ''auto''"]
  by (simp add: env_news_down_def eval_defs)

text \<open>
  C9, as the code has it.  The attempt counter and the last error are local to one
  call, and a search leaves the credentials and the preferred engine as they were.  The
  backend index and the client are fields of the engine and keep the value the call
  left.  In terms of the replies that the \<^verbatim>\<open>ddgs.text\<close> calls of this search have met:
  the index is unchanged when none of them is a rate-limit failure, it is further by one
  rotation slot for each of them that is one, and the whole engine is unchanged when
  none of them is a failure.
\<close>

theorem C9_engine_after_search:
  "\<exists>evs. snd (snd (search w query max_results (se, tr))) = tr @ evs
     \<and> google_api_key (fst (snd (search w query max_results (se, tr)))) = google_api_key se
     \<and> google_cse_id (fst (snd (search w query max_results (se, tr)))) = google_cse_id se
     \<and> preferred_engine (fst (snd (search w query max_results (se, tr)))) = preferred_engine se
     \<and> (length (filter ratelimit_reply (replies_from w (count_ev is_Ddgs_text tr) evs)) = 0
          \<longrightarrow> backend_idx (fst (snd (search w query max_results (se, tr)))) = backend_idx se)
     \<and> (0 < length (filter ratelimit_reply (replies_from w (count_ev is_Ddgs_text tr) evs))
          \<longrightarrow> backend_idx (fst (snd (search w query max_results (se, tr))))
                = (backend_idx se
                   + length (filter ratelimit_reply
                               (replies_from w (count_ev is_Ddgs_text tr) evs))) mod 3)
     \<and> ((\<forall>r \<in> set (replies_from w (count_ev is_Ddgs_text tr) evs). \<not> raises r)
          \<longrightarrow> fst (snd (search w query max_results (se, tr))) = se)"
proof -
  from search_shape [of w query max_results se tr]
  consider (direct) r evs where "search w query max_results (se, tr) = (r, se, tr @ evs)"
      and "count_ev is_Ddgs_text evs = 0"
    | (ddg) evs0 where "count_ev is_Ddgs_text evs0 = 0"
      and "search w query max_results (se, tr)
             = search_duckduckgo w query max_results (se, tr @ evs0)"
    by blast
  then show ?thesis
  proof cases
    case direct
    have "replies_from w (count_ev is_Ddgs_text tr) evs = []"
      using direct(2) by (rule replies_from_none)
    then show ?thesis using direct(1) by (intro exI [of _ evs]) simp
  next
    case ddg
    from search_duckduckgo_engine [OF ddg(1), of w query max_results se tr]
    obtain evs where
      "snd (snd (search_duckduckgo w query max_results (se, tr @ evs0))) = tr @ evs
     \<and> google_api_key (fst (snd (search_duckduckgo w query max_results (se, tr @ evs0))))
         = google_api_key se
     \<and> google_cse_id (fst (snd (search_duckduckgo w query max_results (se, tr @ evs0))))
         = google_cse_id se
     \<and> preferred_engine (fst (snd (search_duckduckgo w query max_results (se, tr @ evs0))))
         = preferred_engine se
     \<and> backend_idx (fst (snd (search_duckduckgo w query max_results (se, tr @ evs0))))
         = (if length (filter ratelimit_reply (replies_from w (count_ev is_Ddgs_text tr) evs)) = 0
            then backend_idx se
            else (backend_idx se
                  + length (filter ratelimit_reply
                              (replies_from w (count_ev is_Ddgs_text tr) evs))) mod 3)
     \<and> ((\<forall>r \<in> set (replies_from w (count_ev is_Ddgs_text tr) evs). \<not> raises r)
          \<longrightarrow> fst (snd (search_duckduckgo w query max_results (se, tr @ evs0))) = se)"
      by blast
    then show ?thesis unfolding ddg(2) by (intro exI [of _ evs]) auto
  qed
qed


theorem C9_engine_after_search_witness:
  "fst (snd (search env_timeout_once ''ai'' 5 (SearchEngine_init None None ''auto'', [])))
     = (SearchEngine_init None None ''auto'')\<lparr>ddgs := 1\<rparr>
   \<and> fst (snd (search env_ratelimit_late ''ai'' 5 (SearchEngine_init None None ''auto'', [])))
     = SearchEngine_init None None ''auto''
   \<and> snd (snd (search env_ratelimit_once ''ai'' 5 (SearchEngine_init None None ''auto'', [])))
     = [Call_search ''ai'' 5, Call_search_duckduckgo ''ai'' 5, Ddgs_text ''ai'' 5 ''api'',
        Make_ddgs, Call_retry_backoff 0, Random_uniform, Sleep 1, Ddgs_text ''ai'' 5 ''html'']
   \<and> replies_from env_ratelimit_once 0
        [Call_search ''ai'' 5, Call_search_duckduckgo ''ai'' 5, Ddgs_text ''ai'' 5 ''api'',
         Make_ddgs, Call_retry_backoff 0, Random_uniform, Sleep 1, Ddgs_text ''ai'' 5 ''html'']
     = [ratelimited, three_hits]
   \<and> length (filter ratelimit_reply [ratelimited, three_hits]) = 1
   \<and> backend_idx (fst (snd (search env_ratelimit_once ''ai'' 5
                               (SearchEngine_init None None ''auto'', [])))) = 1"
proof -
  have f1: "fst (snd (search env_timeout_once ''ai'' 5 (SearchEngine_init None None ''auto'', [])))
     = (SearchEngine_init None None ''auto'')\<lparr>ddgs := 1\<rparr>"
    by (simp add: env_timeout_once_def eval_defs)
  have f2: "fst (snd (search env_ratelimit_late ''ai'' 5 (SearchEngine_init None None ''auto'', [])))
     = SearchEngine_init None None ''auto''"
    by (simp add: env_ratelimit_late_def eval_defs)
  have f3: "snd (snd (search env_ratelimit_once ''ai'' 5 (SearchEngine_init None None ''auto'', [])))
     = [Call_search ''ai'' 5, Call_search_duckduckgo ''ai'' 5, Ddgs_text ''ai'' 5 ''api'',
        Make_ddgs, Call_retry_backoff 0, Random_uniform, Sleep 1, Ddgs_text ''ai'' 5 ''html'']"
    by (simp add: env_ratelimit_once_def eval_defs)
  have f4: "replies_from env_ratelimit_once 0
        [Call_search ''ai'' 5, Call_search_duckduckgo ''ai'' 5, Ddgs_text ''ai'' 5 ''api'',
         Make_ddgs, Call_retry_backoff 0, Random_uniform, Sleep 1, Ddgs_text ''ai'' 5 ''html'']
     = [ratelimited, three_hits]"
    by (simp add: env_ratelimit_once_def env_of_def)
  have f5: "length (filter ratelimit_reply [ratelimited, three_hits]) = 1"
    by (simp add: ratelimited_def three_hits_def is_ratelimit_def)
  from C9_engine_after_search [of env_ratelimit_once "''ai''" 5
      "SearchEngine_init None None ''auto''" "[]"]
  obtain evs where
    t: "snd (snd (search env_ratelimit_once ''ai'' 5 (SearchEngine_init None None ''auto'', [])))
          = [] @ evs"
    and i: "0 < length (filter ratelimit_reply
                          (replies_from env_ratelimit_once (count_ev is_Ddgs_text []) evs))
            \<longrightarrow> backend_idx (fst (snd (search env_ratelimit_once ''ai'' 5
                                        (SearchEngine_init None None ''auto'', []))))
                 = (backend_idx (SearchEngine_init None None ''auto'')
                    + length (filter ratelimit_reply
                        (replies_from env_ratelimit_once (count_ev is_Ddgs_text []) evs))) mod 3"
    by blast
  have evs: "evs = [Call_search ''ai'' 5, Call_search_duckduckgo ''ai'' 5,
        Ddgs_text ''ai'' 5 ''api'', Make_ddgs, Call_retry_backoff 0, Random_uniform, Sleep 1,
        Ddgs_text ''ai'' 5 ''html'']"
    using t f3 by simp
  have f6: "backend_idx (fst (snd (search env_ratelimit_once ''ai'' 5
                               (SearchEngine_init None None ''auto'', [])))) = 1"
    using i unfolding evs count_ev_Nil f4 f5 by (simp add: SearchEngine_init_def)
  show ?thesis using f1 f2 f3 f4 f5 f6 by blast
qed

text \<open>
  C9 as stated fails: after a search that met one rate-limit failure the backend index
  is 1 instead of 0, and the same search run again from the engine it left starts at
  the backend 'html' where the first run started at 'api'.
\<close>

theorem C9_retry_state_counterexample:
  "fst (snd (search env_ratelimit_once ''ai'' 5 (SearchEngine_init None None ''auto'', [])))
     \<noteq> SearchEngine_init None None ''auto''
   \<and> backend_idx (SearchEngine_init None None ''auto'') = 0
   \<and> backend_idx (fst (snd (search env_ratelimit_once ''ai'' 5
                               (SearchEngine_init None None ''auto'', [])))) = 1
   \<and> snd (snd (search env_ratelimit_once ''ai'' 5 (SearchEngine_init None None ''auto'', [])))
     = [Call_search ''ai'' 5, Call_search_duckduckgo ''ai'' 5, Ddgs_text ''ai'' 5 ''api'',
        Make_ddgs, Call_retry_backoff 0, Random_uniform, Sleep 1, Ddgs_text ''ai'' 5 ''html'']
   \<and> snd (snd (search env_ratelimit_once ''ai'' 5
                  (fst (snd (search env_ratelimit_once ''ai'' 5
                               (SearchEngine_init None None ''auto'', []))), [])))
     = [Call_search ''ai'' 5, Call_search_duckduckgo ''ai'' 5, Ddgs_text ''ai'' 5 ''html'',
        Make_ddgs, Call_retry_backoff 0, Random_uniform, Sleep 1, Ddgs_text ''ai'' 5 ''lite'']"
  by (simp add: env_ratelimit_once_def eval_defs)


text \<open>
  C6.  The claim is that no fetch returns more than 20 records, the requested number
  being clamped into 1..20 on every path.  The primary path has no clamp: with both
  credentials configured, 30 results requested and a provider that answers ten items
  to each request, \<^verbatim>\<open>search\<close> makes three requests of ten and returns 30 records.
\<close>

theorem C6_primary_returns_thirty:
  "search env_honest ''ai'' 30 (SearchEngine_init (Some ''key'') (Some ''cx'') ''auto'', [])
     = (Inr (map google_record (ten_items @ ten_items @ ten_items)),
        SearchEngine_init (Some ''key'') (Some ''cx'') ''auto'',
        [Call_search ''ai'' 30, Call_search_google ''ai'' 30, Requests_get ''ai'' 1 10,
         Requests_get ''ai'' 11 10, Requests_get ''ai'' 21 10])
   \<and> length (map google_record (ten_items @ ten_items @ ten_items)) = 30
   \<and> \<not> (30::nat) \<le> 20"
  by (simp add: env_honest_def ten_items_def eval_defs)

text \<open>
  C10, as the code has it.  Every call of \<^verbatim>\<open>research\<close> that returns appends exactly
  the dict it returns, once, to \<^verbatim>\<open>research_history\<close>; when the page slice is empty
  that dict carries the error 'No search results found', has no sources and no
  analysis, and neither the scraper nor the language model was called; otherwise it
  carries no error.  A call that raises instead appends nothing.  The call returns
  whenever the progress callback and the console do not raise and every
  \<^verbatim>\<open>HTTPError\<close> of the primary provider carries a response.
\<close>

theorem C10_research_history:
  "((\<exists>data ag1 tr1.
       research w query depth max_sources news page per_page progress_cb (ag, tr)
         = (Inr data, ag1, tr1)
     \<and> research_history ag1 = research_history ag @ [data]
     \<and> (rd_search_results data = [] \<longrightarrow>
           rd_error data = Some ''No search results found''
         \<and> rd_sources data = [] \<and> rd_analysis data = None
         \<and> count_ev is_Scrape_url tr1 = count_ev is_Scrape_url tr
         \<and> count_ev is_Analyze_with_ai tr1 = count_ev is_Analyze_with_ai tr)
     \<and> (rd_search_results data \<noteq> [] \<longrightarrow> rd_error data = None))
    \<or> (\<exists>e ag1 tr1.
         research w query depth max_sources news page per_page progress_cb (ag, tr)
           = (Inl e, ag1, tr1)
       \<and> research_history ag1 = research_history ag))
   \<and> ((\<forall>cb k m. progress_cb = Some cb \<longrightarrow> \<not> raises (cb k m))
        \<and> (\<forall>k m. \<not> raises (print_out w k m))
        \<and> (\<forall>k q s n. requests_get w k q s n \<noteq> Raises (HTTPError None))
        \<longrightarrow> (\<exists>data ag1 tr1.
               research w query depth max_sources news page per_page progress_cb (ag, tr)
                 = (Inr data, ag1, tr1)))"
  using research_cases [of w query depth max_sources news page per_page progress_cb ag tr]
    research_passes [of progress_cb w query depth max_sources news page per_page ag tr]
  by blast


theorem C10_research_history_witness:
  "fst (research env_down ''ai'' ''deep'' 5 False 0 None None
          (AIResearchAgent_init None None True ''ollama'' ''auto'', []))
     = Inr \<lparr>rd_query = ''ai'', rd_timestamp = ''2024-01-01T00:00:00'',
            rd_search_results = [], rd_sources = [], rd_page = 0, rd_per_page = 5,
            rd_has_more = False, rd_error = Some ''No search results found'',
            rd_analysis = None\<rparr>
   \<and> research_history (fst (snd (research env_down ''ai'' ''deep'' 5 False 0 None None
          (AIResearchAgent_init None None True ''ollama'' ''auto'', []))))
     = [\<lparr>rd_query = ''ai'', rd_timestamp = ''2024-01-01T00:00:00'',
         rd_search_results = [], rd_sources = [], rd_page = 0, rd_per_page = 5,
         rd_has_more = False, rd_error = Some ''No search results found'',
         rd_analysis = None\<rparr>]
   \<and> fst (research env_honest ''ai'' ''deep'' 2 False 0 None None
          (AIResearchAgent_init None None True ''ollama'' ''auto'', []))
     = Inr \<lparr>rd_query = ''ai'', rd_timestamp = ''2024-01-01T00:00:00'',
            rd_search_results = map text_record [hit ''a'', hit ''b''],
            rd_sources = [\<lparr>success = True, entries = [(''url'', ''a'')]\<rparr>,
                          \<lparr>success = True, entries = [(''url'', ''b'')]\<rparr>],
            rd_page = 0, rd_per_page = 2, rd_has_more = True, rd_error = None,
            rd_analysis = Some ''summary''\<rparr>
   \<and> research_history (fst (snd (research env_honest ''ai'' ''deep'' 2 False 0 None None
          (AIResearchAgent_init None None True ''ollama'' ''auto'', []))))
     = [\<lparr>rd_query = ''ai'', rd_timestamp = ''2024-01-01T00:00:00'',
         rd_search_results = map text_record [hit ''a'', hit ''b''],
         rd_sources = [\<lparr>success = True, entries = [(''url'', ''a'')]\<rparr>,
                       \<lparr>success = True, entries = [(''url'', ''b'')]\<rparr>],
         rd_page = 0, rd_per_page = 2, rd_has_more = True, rd_error = None,
         rd_analysis = Some ''summary''\<rparr>]
   \<and> snd (snd (research env_honest ''ai'' ''deep'' 2 False 0 None None
          (AIResearchAgent_init None None True ''ollama'' ''auto'', [])))
     = [Print (CHR 0x0A # icon_researching @ '' Researching: ai''),
        Print (icon_searching @ '' Searching the web...''),
        Call_search ''ai'' 6, Call_search_duckduckgo ''ai'' 6, Ddgs_text ''ai'' 6 ''api'',
        Print (icon_scraping @ '' Scraping 2 sources...''),
        Print ''  [1/2] a'', Scrape_url ''a'', Print ''  [2/2] b'', Scrape_url ''b'',
        Print (icon_analyzing @ '' Analyzing with ollama...''), Analyze_with_ai]"
proof -
  have s1: "\<And>tr. search env_down ''ai'' 15 (SearchEngine_init None None ''auto'', tr)
    = (Inr [], (SearchEngine_init None None ''auto'')\<lparr>backend_idx := 2, ddgs := 6\<rparr>,
       tr @ [Call_search ''ai'' 15, Call_search_duckduckgo ''ai'' 15,
         Ddgs_text ''ai'' 15 ''api'', Make_ddgs, Call_retry_backoff 0, Random_uniform, Sleep 1,
         Ddgs_text ''ai'' 15 ''html'', Make_ddgs, Call_retry_backoff 1, Random_uniform, Sleep 2,
         Ddgs_text ''ai'' 15 ''lite'', Make_ddgs, Call_retry_backoff 2, Random_uniform, Sleep 4,
         Ddgs_text ''ai'' 15 ''api'', Make_ddgs, Call_retry_backoff 3, Random_uniform, Sleep 8,
         Ddgs_text ''ai'' 15 ''html'', Make_ddgs, Make_ddgs])"
    by (simp add: env_down_def eval_defs)
  have s2: "\<And>tr. search env_honest ''ai'' 6 (SearchEngine_init None None ''auto'', tr)
    = (Inr (map text_record [hit ''a'', hit ''b'', hit ''c'']),
       SearchEngine_init None None ''auto'',
       tr @ [Call_search ''ai'' 6, Call_search_duckduckgo ''ai'' 6, Ddgs_text ''ai'' 6 ''api''])"
    by (simp add: env_honest_def eval_defs)
  have w1: "now_isoformat env_down = (\<lambda>k. ''2024-01-01T00:00:00'')"
    "print_out env_down = (\<lambda>k m. Returns ())"
    by (simp_all add: env_down_def env_of_def)
  have w2: "now_isoformat env_honest = (\<lambda>k. ''2024-01-01T00:00:00'')"
    "scrape_url env_honest = (\<lambda>k u. Returns \<lparr>success = True, entries = [(''url'', u)]\<rparr>)"
    "analyze_with_ai env_honest = (\<lambda>k. ''summary'')"
    "print_out env_honest = (\<lambda>k m. Returns ())"
    by (simp_all add: env_honest_def env_of_def)
  have r1: "research env_down ''ai'' ''deep'' 5 False 0 None None
       (AIResearchAgent_init None None True ''ollama'' ''auto'', [])
     = (Inr \<lparr>rd_query = ''ai'', rd_timestamp = ''2024-01-01T00:00:00'',
             rd_search_results = [], rd_sources = [], rd_page = 0, rd_per_page = 5,
             rd_has_more = False, rd_error = Some ''No search results found'',
             rd_analysis = None\<rparr>,
        \<lparr>search_engine = (SearchEngine_init None None ''auto'')\<lparr>backend_idx := 2, ddgs := 6\<rparr>,
         use_ai = True, ai_backend = ''ollama'',
         research_history =
           [\<lparr>rd_query = ''ai'', rd_timestamp = ''2024-01-01T00:00:00'',
             rd_search_results = [], rd_sources = [], rd_page = 0, rd_per_page = 5,
             rd_has_more = False, rd_error = Some ''No search results found'',
             rd_analysis = None\<rparr>]\<rparr>,
        [Print (CHR 0x0A # icon_researching @ '' Researching: ai''),
         Print (icon_searching @ '' Searching the web...''),
         Call_search ''ai'' 15, Call_search_duckduckgo ''ai'' 15,
         Ddgs_text ''ai'' 15 ''api'', Make_ddgs, Call_retry_backoff 0, Random_uniform, Sleep 1,
         Ddgs_text ''ai'' 15 ''html'', Make_ddgs, Call_retry_backoff 1, Random_uniform, Sleep 2,
         Ddgs_text ''ai'' 15 ''lite'', Make_ddgs, Call_retry_backoff 2, Random_uniform, Sleep 4,
         Ddgs_text ''ai'' 15 ''api'', Make_ddgs, Call_retry_backoff 3, Random_uniform, Sleep 8,
         Ddgs_text ''ai'' 15 ''html'', Make_ddgs, Make_ddgs])"
    by (simp add: research_def research_page_def announce_def AIResearchAgent_init_def
          resolve_per_page_def fetch_n_def s1 w1 page_results_def has_more_def Let_def)
  have r2: "research env_honest ''ai'' ''deep'' 2 False 0 None None
       (AIResearchAgent_init None None True ''ollama'' ''auto'', [])
     = (Inr \<lparr>rd_query = ''ai'', rd_timestamp = ''2024-01-01T00:00:00'',
             rd_search_results = map text_record [hit ''a'', hit ''b''],
             rd_sources = [\<lparr>success = True, entries = [(''url'', ''a'')]\<rparr>,
                           \<lparr>success = True, entries = [(''url'', ''b'')]\<rparr>],
             rd_page = 0, rd_per_page = 2, rd_has_more = True, rd_error = None,
             rd_analysis = Some ''summary''\<rparr>,
        \<lparr>search_engine = SearchEngine_init None None ''auto'',
         use_ai = True, ai_backend = ''ollama'',
         research_history =
           [\<lparr>rd_query = ''ai'', rd_timestamp = ''2024-01-01T00:00:00'',
             rd_search_results = map text_record [hit ''a'', hit ''b''],
             rd_sources = [\<lparr>success = True, entries = [(''url'', ''a'')]\<rparr>,
                           \<lparr>success = True, entries = [(''url'', ''b'')]\<rparr>],
             rd_page = 0, rd_per_page = 2, rd_has_more = True, rd_error = None,
             rd_analysis = Some ''summary''\<rparr>]\<rparr>,
        [Print (CHR 0x0A # icon_researching @ '' Researching: ai''),
         Print (icon_searching @ '' Searching the web...''),
         Call_search ''ai'' 6, Call_search_duckduckgo ''ai'' 6, Ddgs_text ''ai'' 6 ''api'',
         Print (icon_scraping @ '' Scraping 2 sources...''),
         Print ''  [1/2] a'', Scrape_url ''a'', Print ''  [2/2] b'', Scrape_url ''b'',
         Print (icon_analyzing @ '' Analyzing with ollama...''), Analyze_with_ai])"
    by (simp add: research_def research_page_def research_scrape_def announce_def
          AIResearchAgent_init_def resolve_per_page_def fetch_n_def s2 w2
          page_results_def has_more_def py_slice_def text_record_def hit_def dict_get_def
          str_or_def str_nat_digit Let_def)
  show ?thesis
    using C10_research_history [of env_down "''ai''" "''deep''" 5 False 0 None None
        "AIResearchAgent_init None None True ''ollama'' ''auto''" "[]"]
    unfolding r1 r2 by simp
qed

text \<open>
  C10 as stated fails: a call whose progress callback raises leaves \<^verbatim>\<open>research\<close> at
  the first announcement, and the history, empty before, is empty after.
\<close>

theorem C10_raising_callback_counterexample:
  "research env_honest ''ai'' ''deep'' 2 False 0 None (Some failing_callback)
       (AIResearchAgent_init None None True ''ollama'' ''auto'', [])
     = (Inl (OtherException ''callback failed''),
        AIResearchAgent_init None None True ''ollama'' ''auto'',
        [Print (CHR 0x0A # icon_researching @ '' Researching: ai''),
         Progress_cb ''Researching: ai''])
   \<and> research_history (AIResearchAgent_init None None True ''ollama'' ''auto'') = []
   \<and> research_history (fst (snd (research env_honest ''ai'' ''deep'' 2 False 0 None
        (Some failing_callback) (AIResearchAgent_init None None True ''ollama'' ''auto'', []))))
     = []"
proof -
  have w2: "print_out env_honest = (\<lambda>k m. Returns ())"
    by (simp add: env_honest_def env_of_def)
  have r: "research env_honest ''ai'' ''deep'' 2 False 0 None (Some failing_callback)
       (AIResearchAgent_init None None True ''ollama'' ''auto'', [])
     = (Inl (OtherException ''callback failed''),
        AIResearchAgent_init None None True ''ollama'' ''auto'',
        [Print (CHR 0x0A # icon_researching @ '' Researching: ai''),
         Progress_cb ''Researching: ai''])"
    by (simp add: research_def announce_def w2 failing_callback_def)
  show ?thesis unfolding r by (simp add: AIResearchAgent_init_def)
qed

end
